theory Spec2Isabelle
  imports Main
begin

section \<open>Characters and texts\<close>

text \<open>
  The validators of the repository work on texts: \<open>SqlSecurityValidator.cs\<close> (C#, the
  read and the update validator) and the two TypeScript tools \<open>ExecuteDDLTool\<close> and
  \<open>DBA_ReadDataTool\<close>. A text is a list of 8-bit characters here, read as Latin-1 code
  units; \<open>length\<close> counts code units as \<open>sql.Length\<close> and \<open>query.length\<close> do.
  Characters beyond Latin-1 are outside the model. Where .NET compares under the current
  culture (\<open>StartsWith\<close> with one argument, \<open>RegexOptions.IgnoreCase\<close>), the culture is
  taken to be the invariant one and the comparison is made on code units: a character
  without weight, such as the soft hyphen, is not skipped.
\<close>

definition code :: "char \<Rightarrow> nat" where
  "code c = of_char c"

definition is_ascii_upper :: "char \<Rightarrow> bool" where
  "is_ascii_upper c = (65 \<le> code c \<and> code c \<le> 90)"

definition is_ascii_lower :: "char \<Rightarrow> bool" where
  "is_ascii_lower c = (97 \<le> code c \<and> code c \<le> 122)"

definition is_digit :: "char \<Rightarrow> bool" where
  "is_digit c = (48 \<le> code c \<and> code c \<le> 57)"

definition ascii_word :: "char \<Rightarrow> bool" where
  \<comment> \<open>the class \<open>[A-Za-z0-9_]\<close>\<close>
  "ascii_word c = (is_ascii_upper c \<or> is_ascii_lower c \<or> is_digit c \<or> code c = 95)"

definition latin1_letter :: "char \<Rightarrow> bool" where
  \<comment> \<open>the letters (Unicode category L) among the first 256 code points\<close>
  "latin1_letter c =
     (is_ascii_upper c \<or> is_ascii_lower c \<or> code c = 170 \<or> code c = 181 \<or> code c = 186
      \<or> (192 \<le> code c \<and> code c \<le> 214) \<or> (216 \<le> code c \<and> code c \<le> 246)
      \<or> 248 \<le> code c)"

definition ascii_fold :: "char \<Rightarrow> char" where
  \<comment> \<open>case folding of the ASCII letters; every other character is left alone\<close>
  "ascii_fold c = (if is_ascii_lower c then char_of (code c - 32) else c)"

datatype flavour = DotNet | JS

fun is_space :: "flavour \<Rightarrow> char \<Rightarrow> bool" where
  \<comment> \<open>\<open>\s\<close>, \<open>Char.IsWhiteSpace\<close> and the characters \<open>trim()\<close> removes: .NET counts
      U+0085 as white space, ECMAScript does not\<close>
  "is_space DotNet c = ((9 \<le> code c \<and> code c \<le> 13) \<or> code c = 32 \<or> code c = 133 \<or> code c = 160)"
| "is_space JS c = ((9 \<le> code c \<and> code c \<le> 13) \<or> code c = 32 \<or> code c = 160)"

fun is_word :: "flavour \<Rightarrow> char \<Rightarrow> bool" where
  \<comment> \<open>\<open>\w\<close>: Unicode letters and digits in .NET, \<open>[A-Za-z0-9_]\<close> in ECMAScript\<close>
  "is_word DotNet c = (ascii_word c \<or> latin1_letter c)"
| "is_word JS c = ascii_word c"

fun is_newline :: "flavour \<Rightarrow> char \<Rightarrow> bool" where
  \<comment> \<open>the characters \<open>.\<close> does not match and before which a multiline \<open>$\<close> matches\<close>
  "is_newline DotNet c = (code c = 10)"
| "is_newline JS c = (code c = 10 \<or> code c = 13)"

section \<open>Regular expressions\<close>

text \<open>
  The patterns of the validators are kept as data. \<open>RStr\<close> is a literal, \<open>RStar\<close> and
  \<open>RPlus\<close> repeat one character class (the only repetitions the patterns have; a lazy
  repetition has the same matches as a greedy one, and only the existence of a match is
  asked for).
\<close>

datatype cclass =
    CSpace          \<comment> \<open>\<open>\s\<close>\<close>
  | CWord           \<comment> \<open>\<open>\w\<close>\<close>
  | CNotAsciiWord   \<comment> \<open>\<open>[^A-Za-z0-9_]\<close>\<close>
  | CDot            \<comment> \<open>\<open>.\<close>\<close>
  | CAny            \<comment> \<open>\<open>[\s\S]\<close>\<close>

datatype rx =
    RStr string
  | RCls cclass
  | RSeq rx rx
  | RAlt rx rx
  | RStar cclass
  | RPlus cclass
  | ROpt rx
  | RBol            \<comment> \<open>\<open>^\<close>\<close>
  | REol            \<comment> \<open>\<open>$\<close>\<close>
  | RWordB          \<comment> \<open>\<open>\b\<close>\<close>

fun any_of :: "string list \<Rightarrow> rx" where
  \<comment> \<open>\<open>(A|B|...)\<close>\<close>
  "any_of [] = RStr []"
| "any_of [w] = RStr w"
| "any_of (w # ws) = RAlt (RStr w) (any_of ws)"

fun seqs :: "rx list \<Rightarrow> rx" where
  "seqs [] = RStr []"
| "seqs [r] = r"
| "seqs (r # rs) = RSeq r (seqs rs)"

fun in_class :: "flavour \<Rightarrow> cclass \<Rightarrow> char \<Rightarrow> bool" where
  "in_class fl CSpace c = is_space fl c"
| "in_class fl CWord c = is_word fl c"
| "in_class fl CNotAsciiWord c = (\<not> ascii_word c)"
| "in_class fl CDot c = (\<not> is_newline fl c)"
| "in_class fl CAny c = True"

definition char_eq :: "bool \<Rightarrow> char \<Rightarrow> char \<Rightarrow> bool" where
  \<comment> \<open>a pattern character against a text character, under \<open>IgnoreCase\<close> / \<open>i\<close> or not\<close>
  "char_eq ic a c = (if ic then ascii_fold a = ascii_fold c else a = c)"

text \<open>
  A position in a text is the character before it (if any) and the rest of the text.
  \<open>rx_step\<close> gives every position at which a match of the pattern that starts at the
  given position can end.
\<close>

type_synonym pos = "char option \<times> string"

fun str_step :: "bool \<Rightarrow> string \<Rightarrow> pos \<Rightarrow> pos list" where
  "str_step ic [] st = [st]"
| "str_step ic (a # as) (p, []) = []"
| "str_step ic (a # as) (p, c # cs) =
     (if char_eq ic a c then str_step ic as (Some c, cs) else [])"

fun star_step :: "flavour \<Rightarrow> cclass \<Rightarrow> pos \<Rightarrow> pos list" where
  "star_step fl k (p, []) = [(p, [])]"
| "star_step fl k (p, c # cs) =
     (p, c # cs) # (if in_class fl k c then star_step fl k (Some c, cs) else [])"

fun word_before :: "flavour \<Rightarrow> char option \<Rightarrow> bool" where
  "word_before fl None = False"
| "word_before fl (Some c) = is_word fl c"

fun word_after :: "flavour \<Rightarrow> string \<Rightarrow> bool" where
  "word_after fl [] = False"
| "word_after fl (c # cs) = is_word fl c"

fun at_end :: "flavour \<Rightarrow> string \<Rightarrow> bool" where
  \<comment> \<open>\<open>$\<close> without the multiline option: .NET also accepts the place before a final newline\<close>
  "at_end fl [] = True"
| "at_end DotNet [c] = (code c = 10)"
| "at_end fl (c # cs) = False"

fun rx_step :: "flavour \<Rightarrow> bool \<Rightarrow> rx \<Rightarrow> pos \<Rightarrow> pos list" where
  "rx_step fl ic (RStr w) st = str_step ic w st"
| "rx_step fl ic (RCls k) (p, []) = []"
| "rx_step fl ic (RCls k) (p, c # cs) = (if in_class fl k c then [(Some c, cs)] else [])"
| "rx_step fl ic (RSeq a b) st = concat (map (rx_step fl ic b) (rx_step fl ic a st))"
| "rx_step fl ic (RAlt a b) st = rx_step fl ic a st @ rx_step fl ic b st"
| "rx_step fl ic (RStar k) st = star_step fl k st"
| "rx_step fl ic (RPlus k) (p, []) = []"
| "rx_step fl ic (RPlus k) (p, c # cs) =
     (if in_class fl k c then star_step fl k (Some c, cs) else [])"
| "rx_step fl ic (ROpt a) st = rx_step fl ic a st @ [st]"
| "rx_step fl ic RBol (p, s) = (if p = None then [(p, s)] else [])"
| "rx_step fl ic REol (p, s) = (if at_end fl s then [(p, s)] else [])"
| "rx_step fl ic RWordB (p, s) = (if word_before fl p \<noteq> word_after fl s then [(p, s)] else [])"

fun rx_search :: "flavour \<Rightarrow> bool \<Rightarrow> rx \<Rightarrow> pos \<Rightarrow> bool" where
  "rx_search fl ic r (p, []) = (rx_step fl ic r (p, []) \<noteq> [])"
| "rx_search fl ic r (p, c # cs) =
     (rx_step fl ic r (p, c # cs) \<noteq> [] \<or> rx_search fl ic r (Some c, cs))"

definition IsMatch :: "flavour \<Rightarrow> bool \<Rightarrow> rx \<Rightarrow> string \<Rightarrow> bool" where
  \<comment> \<open>\<open>Regex.IsMatch\<close> and \<open>RegExp.prototype.test\<close>: is there a match anywhere in the text\<close>
  "IsMatch fl ic r s = rx_search fl ic r (None, s)"


definition keywordPattern :: "string \<Rightarrow> rx" where
  \<comment> \<open>\<open>(^|\s|[^A-Za-z0-9_])KEYWORD($|\s|[^A-Za-z0-9_])\<close>, as all four validators build it\<close>
  "keywordPattern keyword =
     seqs [RAlt RBol (RAlt (RCls CSpace) (RCls CNotAsciiWord)),
           RStr keyword,
           RAlt REol (RAlt (RCls CSpace) (RCls CNotAsciiWord))]"

definition keyword_hit :: "flavour \<Rightarrow> string list \<Rightarrow> string \<Rightarrow> string option" where
  \<comment> \<open>the loop over the keywords: the first keyword whose pattern matches the text\<close>
  "keyword_hit fl keywords s =
     find (\<lambda>keyword. IsMatch fl True (keywordPattern keyword) s) keywords"

definition pattern_hit :: "flavour \<Rightarrow> (bool \<times> rx) list \<Rightarrow> string \<Rightarrow> bool" where
  \<comment> \<open>the loop over the patterns: does one of them match the text\<close>
  "pattern_hit fl patterns s = list_ex (\<lambda>(ic, pattern). IsMatch fl ic pattern s) patterns"

section \<open>Operations on texts\<close>

fun starts_with :: "bool \<Rightarrow> string \<Rightarrow> string \<Rightarrow> bool" where
  \<comment> \<open>\<open>s.StartsWith(w)\<close>, \<open>s.startsWith(w)\<close>, as a comparison of code units; the flag is
      true for a comparison that ignores case\<close>
  "starts_with ic s [] = True"
| "starts_with ic [] (a # as) = False"
| "starts_with ic (c # cs) (a # as) = (char_eq ic a c \<and> starts_with ic cs as)"

fun contains :: "bool \<Rightarrow> string \<Rightarrow> string \<Rightarrow> bool" where
  \<comment> \<open>\<open>s.Contains(w)\<close>, \<open>s.Contains(w, StringComparison.OrdinalIgnoreCase)\<close>, \<open>s.includes(w)\<close>\<close>
  "contains ic [] w = starts_with ic [] w"
| "contains ic (c # cs) w = (starts_with ic (c # cs) w \<or> contains ic cs w)"

definition Replace_char :: "char \<Rightarrow> char \<Rightarrow> string \<Rightarrow> string" where
  \<comment> \<open>\<open>s.Replace(a, b)\<close> for one-character texts \<open>a\<close> and \<open>b\<close>\<close>
  "Replace_char a b s = map (\<lambda>c. if c = a then b else c) s"

definition Trim :: "flavour \<Rightarrow> string \<Rightarrow> string" where
  \<comment> \<open>\<open>s.Trim()\<close>, \<open>s.trim()\<close>\<close>
  "Trim fl s = rev (dropWhile (is_space fl) (rev (dropWhile (is_space fl) s)))"

definition IsNullOrWhiteSpace :: "string \<Rightarrow> bool" where
  "IsNullOrWhiteSpace s = list_all (is_space DotNet) s"

fun Replace_2sp :: "string \<Rightarrow> string" where
  \<comment> \<open>\<open>s.Replace("  ", " ")\<close>: one pass from the left over disjoint pairs of spaces\<close>
  "Replace_2sp (a # b # cs) =
     (if a = CHR '' '' \<and> b = CHR '' '' then CHR '' '' # Replace_2sp cs
      else a # Replace_2sp (b # cs))"
| "Replace_2sp s = s"

fun Split :: "char \<Rightarrow> string \<Rightarrow> string list" where
  \<comment> \<open>\<open>s.Split(sep)\<close>, \<open>s.split(sep)\<close>: the pieces between the separators, empty ones kept\<close>
  "Split sep [] = [[]]"
| "Split sep (c # cs) =
     (if c = sep then [] # Split sep cs
      else (case Split sep cs of [] \<Rightarrow> [[c]] | x # xs \<Rightarrow> (c # x) # xs))"

definition join :: "string \<Rightarrow> string list \<Rightarrow> string" where
  \<comment> \<open>\<open>xs.join(sep)\<close>\<close>
  "join sep xs = concat (case xs of [] \<Rightarrow> [] | y # ys \<Rightarrow> y # map (\<lambda>x. sep @ x) ys)"

definition has_capital :: "char \<Rightarrow> bool" where
  \<comment> \<open>the Latin-1 characters whose capital is a Latin-1 character: it lies 32 below\<close>
  "has_capital c =
     (is_ascii_lower c \<or> (224 \<le> code c \<and> code c \<le> 246) \<or> (248 \<le> code c \<and> code c \<le> 254))"

definition capital :: "char \<Rightarrow> char" where
  "capital c = (if has_capital c then char_of (code c - 32) else c)"

definition is_sharp_s :: "char \<Rightarrow> bool" where
  "is_sharp_s c = (code c = 223)"

definition ToUpperInvariant :: "string \<Rightarrow> string" where
  \<comment> \<open>character by character; the sharp s has no capital, and the capitals of the micro
      sign and of y with diaeresis lie beyond Latin-1: all three are left alone\<close>
  "ToUpperInvariant s = map capital s"

definition toUpperCase :: "string \<Rightarrow> string" where
  \<comment> \<open>ECMAScript maps the sharp s to the two letters SS\<close>
  "toUpperCase s = concat (map (\<lambda>c. if is_sharp_s c then ''SS'' else [capital c]) s)"

function replace_ws_runs :: "string \<Rightarrow> string" where
  \<comment> \<open>\<open>.replace(/\s+/g, ' ')\<close>\<close>
  "replace_ws_runs [] = []"
| "replace_ws_runs (c # cs) =
     (if is_space JS c then CHR '' '' # replace_ws_runs (dropWhile (is_space JS) cs)
      else c # replace_ws_runs cs)"
  by pat_completeness auto
termination
  by (relation "measure length") (auto simp: le_imp_less_Suc length_dropWhile_le)

section \<open>Comment removal\<close>

text \<open>
  \<open>Regex.Replace(sql, @"--.*$", "", RegexOptions.Multiline)\<close> and
  \<open>.replace(/--.*$/gm, '')\<close>: every match is cut out, from the left; a match runs from
  two hyphens to the end of the line. Then
  \<open>Regex.Replace(result, @"/\*[\s\S]*?\*/", "")\<close> and \<open>.replace(/\/\*[\s\S]*?\*\//g, '')\<close>:
  a match runs from a slash-star to the first star-slash after it.
\<close>

function strip_line_comments :: "flavour \<Rightarrow> string \<Rightarrow> string" where
  "strip_line_comments fl (a # b # cs) =
     (if a = CHR ''-'' \<and> b = CHR ''-''
      then strip_line_comments fl (dropWhile (\<lambda>c. \<not> is_newline fl c) cs)
      else a # strip_line_comments fl (b # cs))"
| "strip_line_comments fl [a] = [a]"
| "strip_line_comments fl [] = []"
  by pat_completeness auto
termination
  by (relation "measure (\<lambda>(fl, s). length s)")
     (auto simp: le_imp_less_Suc length_dropWhile_le less_Suc_eq_le le_SucI)

fun after_close :: "string \<Rightarrow> string option" where
  \<comment> \<open>the text after the first star-slash, if there is one\<close>
  "after_close (a # b # cs) =
     (if a = CHR ''*'' \<and> b = CHR ''/'' then Some cs else after_close (b # cs))"
| "after_close s = None"

function strip_block_comments :: "string \<Rightarrow> string" where
  "strip_block_comments (a # b # cs) =
     (if a = CHR ''/'' \<and> b = CHR ''*''
      then (case after_close cs of
              Some r \<Rightarrow> strip_block_comments r
            | None \<Rightarrow> a # strip_block_comments (b # cs))
      else a # strip_block_comments (b # cs))"
| "strip_block_comments [a] = [a]"
| "strip_block_comments [] = []"
  by pat_completeness auto
termination
proof -
  have shorter: "length r < length s" if "after_close s = Some r" for s r
    using that by (induction s rule: after_close.induct) (auto split: if_splits)
  show ?thesis
    by (relation "measure length") (auto dest: shorter)
qed

definition RemoveComments :: "string \<Rightarrow> string" where
  "RemoveComments sql = strip_block_comments (strip_line_comments DotNet sql)"

section \<open>SqlSecurityValidator.cs\<close>

record ValidationResult =
  IsValid :: bool
  Message :: string

definition Result :: "bool \<Rightarrow> string \<Rightarrow> ValidationResult" where
  "Result v m = \<lparr>IsValid = v, Message = m\<rparr>"

definition DangerousKeywords :: "string list" where
  "DangerousKeywords =
    [''DELETE'', ''DROP'', ''INSERT'', ''ALTER'', ''CREATE'', ''TRUNCATE'', ''EXEC'', ''EXECUTE'',
     ''MERGE'', ''REPLACE'', ''GRANT'', ''REVOKE'', ''COMMIT'', ''ROLLBACK'', ''TRANSACTION'',
     ''BEGIN'', ''DECLARE'', ''SET'', ''USE'', ''BACKUP'', ''RESTORE'', ''KILL'', ''SHUTDOWN'',
     ''WAITFOR'', ''OPENROWSET'', ''OPENDATASOURCE'', ''OPENQUERY'', ''OPENXML'', ''BULK'']"

text \<open>Each pattern with its \<open>IgnoreCase\<close> option.\<close>

definition DangerousPatterns :: "(bool \<times> rx) list" where
  "DangerousPatterns =
    [(True, seqs [RStr '';'', RStar CSpace,
                  any_of [''DELETE'', ''DROP'', ''UPDATE'', ''INSERT'', ''ALTER'', ''CREATE'', ''TRUNCATE'',
                          ''EXEC'', ''EXECUTE'', ''MERGE'', ''REPLACE'', ''GRANT'', ''REVOKE'']]),
     (True, seqs [RWordB, RStr ''UNION'', RPlus CSpace, ROpt (RSeq (RStr ''ALL'') (RPlus CSpace)),
                  RStr ''SELECT'']),
     (True, seqs [RStr ''--'', RStar CDot,
                  any_of [''DELETE'', ''DROP'', ''UPDATE'', ''INSERT'', ''ALTER'', ''CREATE'', ''TRUNCATE'',
                          ''EXEC'', ''EXECUTE'']]),
     (True, seqs [RStr ''/*'', RStar CDot,
                  any_of [''DELETE'', ''DROP'', ''UPDATE'', ''INSERT'', ''ALTER'', ''CREATE'', ''TRUNCATE'',
                          ''EXEC'', ''EXECUTE''],
                  RStar CDot, RStr ''*/'']),
     (True, seqs [RWordB, RStr ''EXEC'', RStar CSpace, RStr ''('']),
     (True, seqs [RWordB, RStr ''EXECUTE'', RStar CSpace, RStr ''('']),
     (True, seqs [RWordB, RStr ''sp_'']),
     (True, seqs [RWordB, RStr ''xp_'']),
     (True, seqs [RWordB, RStr ''BULK'', RPlus CSpace, RStr ''INSERT'']),
     (True, seqs [RWordB, RStr ''OPENROWSET'']),
     (True, seqs [RWordB, RStr ''OPENDATASOURCE'']),
     (False, RStr ''@@''),
     (True, seqs [RWordB, RStr ''SYSTEM_USER'']),
     (True, seqs [RWordB, RStr ''USER_NAME'']),
     (True, seqs [RWordB, RStr ''DB_NAME'']),
     (True, seqs [RWordB, RStr ''HOST_NAME'']),
     (True, seqs [RWordB, RStr ''WAITFOR'', RPlus CSpace, RStr ''DELAY'']),
     (True, seqs [RWordB, RStr ''WAITFOR'', RPlus CSpace, RStr ''TIME'']),
     (False, seqs [RStr '';'', RStar CSpace, RCls CWord]),
     (True, seqs [RStr ''+'', RStar CSpace, RStr ''CHAR'', RStar CSpace, RStr ''('']),
     (True, seqs [RStr ''+'', RStar CSpace, RStr ''NCHAR'', RStar CSpace, RStr ''('']),
     (True, seqs [RStr ''+'', RStar CSpace, RStr ''ASCII'', RStar CSpace, RStr ''(''])]"

function while_double_spaces :: "string \<Rightarrow> string" where
  \<comment> \<open>\<open>while (cleanQuery.Contains("  ")) cleanQuery = cleanQuery.Replace("  ", " ");\<close>\<close>
  "while_double_spaces s =
     (if contains False s ''  '' then while_double_spaces (Replace_2sp s) else s)"
  by pat_completeness auto
termination
proof -
  have le: "length (Replace_2sp s) \<le> length s" for s
    by (induction s rule: Replace_2sp.induct) auto
  have shorter: "length (Replace_2sp s) < length s" if "contains False s ''  ''" for s
    using that
  proof (induction s rule: Replace_2sp.induct)
    case (1 a b cs)
    show ?case
    proof (cases "a = CHR '' '' \<and> b = CHR '' ''")
      case True
      then show ?thesis using le [of cs] by simp
    next
      case False
      then have "contains False (b # cs) ''  ''"
        using "1.prems" by (auto simp: char_eq_def)
      then show ?thesis using False "1.IH"(2) by auto
    qed
  qed (simp_all add: char_eq_def)
  show ?thesis
    by (relation "measure length") (auto dest: shorter)
qed

definition clean_dotnet :: "string \<Rightarrow> string" where
  \<comment> \<open>the first statements of both validators, up to the end of the \<open>while\<close> loop\<close>
  "clean_dotnet sql =
     while_double_spaces
       (Trim DotNet
         (Replace_char (CHR 0x0D) (CHR '' '')
           (Replace_char (CHR 0x0A) (CHR '' '')
             (Replace_char (CHR 0x09) (CHR '' '') (RemoveComments sql)))))"


definition quoted :: "string \<Rightarrow> string" where
  \<comment> \<open>a text between apostrophes, as the messages show a keyword\<close>
  "quoted w = CHR 0x27 # w @ [CHR 0x27]"

definition ValidateReadQuery :: "string \<Rightarrow> ValidationResult" where
  "ValidateReadQuery sql =
    (if IsNullOrWhiteSpace sql then Result False ''Query must be a non-empty string''
     else let cleanQuery = clean_dotnet sql in
     if IsNullOrWhiteSpace cleanQuery
     then Result False ''Query cannot be empty after removing comments''
     else let upperQuery = ToUpperInvariant cleanQuery in
     if \<not> starts_with False upperQuery ''SELECT''
     then Result False ''Query must start with SELECT for security reasons''
     else case keyword_hit DotNet DangerousKeywords upperQuery of
       Some keyword \<Rightarrow>
         Result False (''Dangerous keyword '' @ quoted keyword
                       @ '' detected in query. Only SELECT operations are allowed.'')
     | None \<Rightarrow>
     if pattern_hit DotNet DangerousPatterns sql
     then Result False
       ''Potentially malicious SQL pattern detected. Only simple SELECT queries are allowed.''
     else let statements = filter (\<lambda>stmt. \<not> IsNullOrWhiteSpace stmt) (Split (CHR '';'') cleanQuery) in
     if length statements > 1
     then Result False
       ''Multiple SQL statements are not allowed. Use only a single SELECT statement.''
     else if contains True sql ''CHAR('' \<or> contains True sql ''NCHAR(''
             \<or> contains True sql ''ASCII(''
     then Result False
       ''Character conversion functions are not allowed as they may be used for obfuscation.''
     else if length sql > 10000
     then Result False ''Query is too long. Maximum allowed length is 10,000 characters.''
     else Result True ''Query validation passed'')"

definition ValidateUpdateQuery :: "string \<Rightarrow> ValidationResult" where
  "ValidateUpdateQuery sql =
    (if IsNullOrWhiteSpace sql then Result False ''Query must be a non-empty string''
     else let cleanQuery = clean_dotnet sql in
     if IsNullOrWhiteSpace cleanQuery
     then Result False ''Query cannot be empty after removing comments''
     else let upperQuery = ToUpperInvariant cleanQuery in
     if \<not> starts_with False upperQuery ''UPDATE''
     then Result False ''Query must start with UPDATE for update operations''
     else if \<not> contains False upperQuery '' WHERE ''
     then Result False ''UPDATE queries must include a WHERE clause for security reasons''
     else let updateDangerousKeywords =
                filter (\<lambda>k. k \<noteq> ''UPDATE'' \<and> k \<noteq> ''SET'') DangerousKeywords in
     case keyword_hit DotNet updateDangerousKeywords upperQuery of
       Some keyword \<Rightarrow>
         Result False (''Dangerous keyword '' @ quoted keyword @ '' detected in query.'')
     | None \<Rightarrow>
     let statements = filter (\<lambda>stmt. \<not> IsNullOrWhiteSpace stmt) (Split (CHR '';'') cleanQuery) in
     if length statements > 1
     then Result False
       ''Multiple SQL statements are not allowed. Use only a single UPDATE statement.''
     else if length sql > 10000
     then Result False ''Query is too long. Maximum allowed length is 10,000 characters.''
     else Result True ''Query validation passed'')"


section \<open>ExecuteDDLTool\<close>

text \<open>
  \<open>validateDDL\<close> is a method: it reads two of its lists through its receiver,
  \<open>this.ALLOWED_DDL_KEYWORDS\<close> and \<open>this.ALLOWED_OBJECT_TYPES\<close>, and the other lists through
  the class, \<open>ExecuteDDLTool.DANGEROUS_KEYWORDS\<close> and \<open>ExecuteDDLTool.DANGEROUS_PATTERNS\<close>.
  The receiver is a parameter of the model: the list-valued properties an object has, by
  name. All four lists are declared \<open>private static readonly\<close>, so they are properties of
  the class object and not of the objects \<open>new ExecuteDDLTool()\<close> makes, whose own fields are
  \<open>name\<close>, \<open>description\<close> and \<open>inputSchema\<close>; calling a method of a property that
  an object does not have throws a \<open>TypeError\<close>.
\<close>

datatype js_error = TypeError

type_synonym receiver = "string \<rightharpoonup> string list"

record validation =
  isValid :: bool
  error :: "string option"

definition invalid :: "string \<Rightarrow> validation" where
  \<comment> \<open>\<open>{ isValid: false, error: msg }\<close>\<close>
  "invalid msg = \<lparr>isValid = False, error = Some msg\<rparr>"

definition valid :: validation where
  \<comment> \<open>\<open>{ isValid: true }\<close>\<close>
  "valid = \<lparr>isValid = True, error = None\<rparr>"

definition ALLOWED_DDL_KEYWORDS :: "string list" where
  "ALLOWED_DDL_KEYWORDS = [''CREATE'', ''ALTER'', ''DROP'', ''TRUNCATE'']"

definition ALLOWED_OBJECT_TYPES :: "string list" where
  "ALLOWED_OBJECT_TYPES =
    [''TABLE'', ''INDEX'', ''VIEW'', ''TRIGGER'', ''CONSTRAINT'',
     ''DEFAULT'', ''RULE'', ''SCHEMA'', ''SEQUENCE'', ''SYNONYM'']"

definition DDL_DANGEROUS_KEYWORDS :: "string list" where
  "DDL_DANGEROUS_KEYWORDS =
    [''EXEC'', ''EXECUTE'', ''INSERT'', ''UPDATE'', ''DELETE'', ''SELECT'',
     ''MERGE'', ''REPLACE'', ''GRANT'', ''REVOKE'', ''COMMIT'', ''ROLLBACK'',
     ''TRANSACTION'', ''BEGIN'', ''DECLARE'', ''SET'', ''USE'', ''BACKUP'',
     ''RESTORE'', ''KILL'', ''SHUTDOWN'', ''WAITFOR'', ''OPENROWSET'',
     ''OPENDATASOURCE'', ''OPENQUERY'', ''OPENXML'', ''BULK'', ''DBCC'']"

definition DDL_DANGEROUS_PATTERNS :: "(bool \<times> rx) list" where
  "DDL_DANGEROUS_PATTERNS =
    [(True, seqs [RStr '';'', RStar CSpace,
                  any_of [''EXEC'', ''EXECUTE'', ''INSERT'', ''UPDATE'', ''DELETE'', ''SELECT'', ''MERGE'',
                          ''GRANT'', ''REVOKE'', ''KILL'', ''SHUTDOWN'']]),
     (True, seqs [RStr ''EXEC'', RStar CSpace, RStr ''('']),
     (True, seqs [RStr ''EXECUTE'', RStar CSpace, RStr ''('']),
     (True, RStr ''sp_''),
     (True, RStr ''xp_''),
     (True, seqs [RStr ''EXEC'', RStar CSpace, RStr ''('']),
     (True, seqs [RStr ''EXECUTE'', RStar CSpace, RStr ''('']),
     (True, seqs [RStr ''BULK'', RPlus CSpace, RStr ''INSERT'']),
     (True, RStr ''OPENROWSET''),
     (True, RStr ''OPENDATASOURCE''),
     (True, seqs [RStr ''WAITFOR'', RPlus CSpace, RStr ''DELAY'']),
     (True, seqs [RStr ''WAITFOR'', RPlus CSpace, RStr ''TIME'']),
     (True, seqs [RStr '';'', RStar CSpace, any_of [''INSERT'', ''UPDATE'', ''DELETE'', ''SELECT'']]),
     (True, seqs [RStr ''+'', RStar CSpace, RStr ''CHAR'', RStar CSpace, RStr ''('']),
     (True, seqs [RStr ''+'', RStar CSpace, RStr ''NCHAR'', RStar CSpace, RStr ''('']),
     (True, seqs [RStr ''+'', RStar CSpace, RStr ''ASCII'', RStar CSpace, RStr ''('']),
     (True, RStr ''master.''),
     (True, RStr ''msdb.''),
     (True, RStr ''model.''),
     (True, RStr ''tempdb.''),
     (True, RStr ''sys.''),
     (True, RStr ''INFORMATION_SCHEMA.'')]"

definition systemDbPattern :: rx where
  \<comment> \<open>\<open>/(master|msdb|model|tempdb)\./i\<close>\<close>
  "systemDbPattern = RSeq (any_of [''master'', ''msdb'', ''model'', ''tempdb'']) (RStr ''.'')"

definition ExecuteDDLTool_class :: receiver where
  \<comment> \<open>the class object: its list-valued properties are the static members\<close>
  "ExecuteDDLTool_class =
     [''ALLOWED_DDL_KEYWORDS'' \<mapsto> ALLOWED_DDL_KEYWORDS,
      ''ALLOWED_OBJECT_TYPES'' \<mapsto> ALLOWED_OBJECT_TYPES,
      ''DANGEROUS_KEYWORDS'' \<mapsto> DDL_DANGEROUS_KEYWORDS]"

definition new_ExecuteDDLTool :: receiver where
  \<comment> \<open>an instance: none of its own fields is a list, and no static member is inherited\<close>
  "new_ExecuteDDLTool = Map.empty"

definition this_some :: "receiver \<Rightarrow> string \<Rightarrow> (string \<Rightarrow> bool) \<Rightarrow> js_error + bool" where
  \<comment> \<open>\<open>this.NAME.some(f)\<close>\<close>
  "this_some this name f =
     (case this name of None \<Rightarrow> Inl TypeError | Some xs \<Rightarrow> Inr (list_ex f xs))"

definition this_join :: "receiver \<Rightarrow> string \<Rightarrow> string \<Rightarrow> js_error + string" where
  \<comment> \<open>\<open>this.NAME.join(sep)\<close>\<close>
  "this_join this name sep =
     (case this name of None \<Rightarrow> Inl TypeError | Some xs \<Rightarrow> Inr (join sep xs))"

definition clean_js :: "string \<Rightarrow> string" where
  \<comment> \<open>the chain of replacements that gives \<open>cleanDDL\<close> and \<open>cleanQuery\<close> in the two tools\<close>
  "clean_js ddl = Trim JS (replace_ws_runs (strip_block_comments (strip_line_comments JS ddl)))"

fun all_statements_DDL :: "receiver \<Rightarrow> string list \<Rightarrow> js_error + bool" where
  \<comment> \<open>the loop over the statements of a batch: false at the first statement that does not
      start with an allowed keyword\<close>
  "all_statements_DDL this [] = Inr True"
| "all_statements_DDL this (stmt # stmts) =
     (let trimmedStmt = toUpperCase (Trim JS stmt) in
      case this_some this ''ALLOWED_DDL_KEYWORDS''
             (\<lambda>keyword. starts_with False trimmedStmt (keyword @ '' '')) of
        Inl e \<Rightarrow> Inl e
      | Inr isValidDDL \<Rightarrow> if \<not> isValidDDL then Inr False else all_statements_DDL this stmts)"

definition validateDDL_tail :: "string \<Rightarrow> validation" where
  \<comment> \<open>the checks after the loop over the statements\<close>
  "validateDDL_tail ddl =
    (if contains False ddl ''CHAR('' \<or> contains False ddl ''NCHAR('' \<or> contains False ddl ''ASCII(''
     then invalid
       ''Character conversion functions are not allowed as they may be used for obfuscation.''
     else if length ddl > 50000
     then invalid ''DDL statement is too long. Maximum allowed length is 50,000 characters.''
     else if IsMatch JS True systemDbPattern ddl
     then invalid
       ''Operations on system databases (master, msdb, model, tempdb) are not allowed.''
     else valid)"

definition validateDDL_scan :: "receiver \<Rightarrow> string \<Rightarrow> string \<Rightarrow> js_error + validation" where
  \<comment> \<open>from the keyword loop on\<close>
  "validateDDL_scan this ddl cleanDDL =
    (let upperDDL = toUpperCase cleanDDL in
     case keyword_hit JS DDL_DANGEROUS_KEYWORDS upperDDL of
       Some keyword \<Rightarrow>
         Inr (invalid (''Dangerous keyword '' @ quoted keyword
                @ '' detected in DDL statement. Only safe DDL operations are allowed.''))
     | None \<Rightarrow>
     if pattern_hit JS DDL_DANGEROUS_PATTERNS ddl
     then Inr (invalid ''Potentially malicious SQL pattern detected in DDL statement.'')
     else let statements = filter (\<lambda>stmt. length (Trim JS stmt) > 0) (Split (CHR '';'') cleanDDL) in
     case (if length statements > 1 then all_statements_DDL this statements else Inr True) of
       Inl e \<Rightarrow> Inl e
     | Inr ok \<Rightarrow>
         if \<not> ok then Inr (invalid ''All statements in a batch must be valid DDL operations.'')
         else Inr (validateDDL_tail ddl))"

definition validateDDL :: "receiver \<Rightarrow> string \<Rightarrow> js_error + validation" where
  "validateDDL this ddl =
    (if ddl = [] then Inr (invalid ''DDL statement must be a non-empty string'')
     else let cleanDDL = clean_js ddl in
     if cleanDDL = [] then Inr (invalid ''DDL statement cannot be empty after removing comments'')
     else let upperDDL = toUpperCase cleanDDL in
     case this_some this ''ALLOWED_DDL_KEYWORDS''
            (\<lambda>keyword. starts_with False upperDDL (keyword @ '' '')) of
       Inl e \<Rightarrow> Inl e
     | Inr startsWithAllowedDDL \<Rightarrow>
     if \<not> startsWithAllowedDDL
     then (case this_join this ''ALLOWED_DDL_KEYWORDS'' '', '' of
             Inl e \<Rightarrow> Inl e
           | Inr names \<Rightarrow> Inr (invalid (''DDL statement must start with one of: '' @ names)))
     else
     case (if starts_with False upperDDL ''CREATE '' \<or> starts_with False upperDDL ''ALTER ''
           then this_some this ''ALLOWED_OBJECT_TYPES''
                  (\<lambda>objType. contains False upperDDL ('' '' @ objType @ '' ''))
           else Inr True) of
       Inl e \<Rightarrow> Inl e
     | Inr hasAllowedObjectType \<Rightarrow>
     if \<not> hasAllowedObjectType
     then (case this_join this ''ALLOWED_OBJECT_TYPES'' '', '' of
             Inl e \<Rightarrow> Inl e
           | Inr names \<Rightarrow> Inr (invalid (''Object type must be one of: '' @ names)))
     else validateDDL_scan this ddl cleanDDL)"

section \<open>DBA_ReadDataTool\<close>

definition DBA_DANGEROUS_KEYWORDS :: "string list" where
  "DBA_DANGEROUS_KEYWORDS =
    [''DELETE'', ''DROP'', ''UPDATE'', ''INSERT'', ''ALTER'', ''CREATE'',
     ''TRUNCATE'', ''MERGE'', ''REPLACE'', ''GRANT'', ''REVOKE'',
     ''BACKUP'', ''RESTORE'', ''KILL'', ''SHUTDOWN'',
     ''OPENROWSET'', ''OPENDATASOURCE'', ''OPENQUERY'', ''OPENXML'', ''BULK'',
     ''DBCC CHECKDB'', ''DBCC CHECKALLOC'', ''DBCC CHECKTABLE'', ''DBCC CHECKFILEGROUP'']"

definition DBA_DANGEROUS_PATTERNS :: "(bool \<times> rx) list" where
  "DBA_DANGEROUS_PATTERNS =
    [(True, seqs [RStr ''DBCC'', RPlus CSpace,
                  any_of [''CHECKDB'', ''CHECKALLOC'', ''CHECKTABLE'', ''CHECKFILEGROUP'',
                          ''WRITEPAGE'', ''PAGE'']]),
     (True, seqs [RStr ''EXEC'', RPlus CSpace, RStr ''sp_configure'']),
     (True, seqs [RStr ''EXEC'', RPlus CSpace, RStr ''xp_'']),
     (True, seqs [RStr ''BULK'', RPlus CSpace, RStr ''INSERT'']),
     (True, RStr ''OPENROWSET''),
     (True, RStr ''OPENDATASOURCE''),
     (True, RStr ''xp_cmdshell''),
     (True, RStr ''xp_dirtree''),
     (True, RStr ''xp_fileexist''),
     (True, RStr ''PASSWORD''),
     (True, RStr ''LOGIN'')]"

definition hasValidOperation :: rx where
  \<comment> \<open>\<open>/SELECT|SET\s+STATISTICS|SET\s+SHOWPLAN|DBCC\s+SHOW_STATISTICS/i\<close>\<close>
  "hasValidOperation =
     RAlt (RStr ''SELECT'')
       (RAlt (seqs [RStr ''SET'', RPlus CSpace, RStr ''STATISTICS''])
         (RAlt (seqs [RStr ''SET'', RPlus CSpace, RStr ''SHOWPLAN''])
               (seqs [RStr ''DBCC'', RPlus CSpace, RStr ''SHOW_STATISTICS''])))"

definition validateDBAQuery :: "string \<Rightarrow> validation" where
  "validateDBAQuery query =
    (if query = [] then invalid ''Query must be a non-empty string''
     else let cleanQuery = clean_js query in
     if cleanQuery = [] then invalid ''Query cannot be empty after removing comments''
     else let upperQuery = toUpperCase cleanQuery in
     case keyword_hit JS DBA_DANGEROUS_KEYWORDS upperQuery of
       Some keyword \<Rightarrow>
         invalid (''Dangerous keyword '' @ quoted keyword
           @ '' detected. This DBA tool prohibits data modification operations.'')
     | None \<Rightarrow>
     if pattern_hit JS DBA_DANGEROUS_PATTERNS query
     then invalid
       ''Potentially dangerous operation detected. This tool is for diagnostic queries only.''
     else if \<not> IsMatch JS True hasValidOperation upperQuery
     then invalid
       ''Batch must contain at least one SELECT statement or valid DBA diagnostic command.''
     else if length query > 50000
     then invalid ''Query batch is too long. Maximum allowed length is 50,000 characters.''
     else valid)"


section \<open>Notions of the specification\<close>








definition candidate_statements :: "string \<Rightarrow> string list" where
  \<comment> \<open>the Statement Splitter on the normalized text: the non-empty trimmed pieces between
      semicolons\<close>
  "candidate_statements query =
     filter (\<lambda>stmt. stmt \<noteq> []) (map (Trim JS) (Split (CHR '';'') (clean_js query)))"

definition select_or_toggle :: "string \<Rightarrow> bool" where
  \<comment> \<open>a candidate statement that is a \<open>SELECT\<close> or a whitelisted diagnostic toggle,
      \<open>SET STATISTICS ...\<close> or \<open>SET SHOWPLAN_* ...\<close>\<close>
  "select_or_toggle stmt =
     (starts_with True stmt ''SELECT'' \<or> starts_with True stmt ''SET STATISTICS ''
      \<or> starts_with True stmt ''SET SHOWPLAN_'')"

definition every_candidate_diagnostic :: "string \<Rightarrow> bool" where
  "every_candidate_diagnostic query = list_all select_or_toggle (candidate_statements query)"

definition char_conversion :: "string \<Rightarrow> bool" where
  \<comment> \<open>the raw text contains \<open>CHAR(\<close>, \<open>NCHAR(\<close> or \<open>ASCII(\<close>, in any letter case\<close>
  "char_conversion sql =
     (contains True sql ''CHAR('' \<or> contains True sql ''NCHAR('' \<or> contains True sql ''ASCII('')"

definition read_checks_before_conversion :: "string \<Rightarrow> bool" where
  \<comment> \<open>the checks of \<open>ValidateReadQuery\<close> that come before the one on conversion functions\<close>
  "read_checks_before_conversion sql =
     (\<not> IsNullOrWhiteSpace sql \<and> \<not> IsNullOrWhiteSpace (clean_dotnet sql)
      \<and> starts_with False (ToUpperInvariant (clean_dotnet sql)) ''SELECT''
      \<and> keyword_hit DotNet DangerousKeywords (ToUpperInvariant (clean_dotnet sql)) = None
      \<and> \<not> pattern_hit DotNet DangerousPatterns sql
      \<and> length (filter (\<lambda>stmt. \<not> IsNullOrWhiteSpace stmt) (Split (CHR '';'') (clean_dotnet sql))) \<le> 1)"

definition read_other_checks :: "string \<Rightarrow> bool" where
  \<comment> \<open>every check of \<open>ValidateReadQuery\<close> but the one on the length\<close>
  "read_other_checks sql = (read_checks_before_conversion sql \<and> \<not> char_conversion sql)"

definition update_other_checks :: "string \<Rightarrow> bool" where
  \<comment> \<open>every check of \<open>ValidateUpdateQuery\<close> but the one on the length\<close>
  "update_other_checks sql =
     (\<not> IsNullOrWhiteSpace sql \<and> \<not> IsNullOrWhiteSpace (clean_dotnet sql)
      \<and> starts_with False (ToUpperInvariant (clean_dotnet sql)) ''UPDATE''
      \<and> contains False (ToUpperInvariant (clean_dotnet sql)) '' WHERE ''
      \<and> keyword_hit DotNet (filter (\<lambda>k. k \<noteq> ''UPDATE'' \<and> k \<noteq> ''SET'') DangerousKeywords)
            (ToUpperInvariant (clean_dotnet sql)) = None
      \<and> length (filter (\<lambda>stmt. \<not> IsNullOrWhiteSpace stmt) (Split (CHR '';'') (clean_dotnet sql))) \<le> 1)"

definition ddl_checks_before_patterns :: "receiver \<Rightarrow> string \<Rightarrow> bool" where
  \<comment> \<open>the checks of \<open>validateDDL\<close> that come before the loop over the patterns\<close>
  "ddl_checks_before_patterns this ddl =
     (ddl \<noteq> [] \<and> clean_js ddl \<noteq> []
      \<and> this_some this ''ALLOWED_DDL_KEYWORDS''
            (\<lambda>keyword. starts_with False (toUpperCase (clean_js ddl)) (keyword @ '' '')) = Inr True
      \<and> (starts_with False (toUpperCase (clean_js ddl)) ''CREATE ''
           \<or> starts_with False (toUpperCase (clean_js ddl)) ''ALTER ''
          \<longrightarrow> this_some this ''ALLOWED_OBJECT_TYPES''
                (\<lambda>objType. contains False (toUpperCase (clean_js ddl)) ('' '' @ objType @ '' ''))
              = Inr True)
      \<and> keyword_hit JS DDL_DANGEROUS_KEYWORDS (toUpperCase (clean_js ddl)) = None)"

definition ddl_other_checks :: "receiver \<Rightarrow> string \<Rightarrow> bool" where
  \<comment> \<open>every check of \<open>validateDDL\<close> but the one on the length\<close>
  "ddl_other_checks this ddl =
     (ddl_checks_before_patterns this ddl
      \<and> \<not> pattern_hit JS DDL_DANGEROUS_PATTERNS ddl
      \<and> (let statements = filter (\<lambda>stmt. length (Trim JS stmt) > 0)
                              (Split (CHR '';'') (clean_js ddl))
         in length statements > 1 \<longrightarrow> all_statements_DDL this statements = Inr True)
      \<and> \<not> (contains False ddl ''CHAR('' \<or> contains False ddl ''NCHAR(''
             \<or> contains False ddl ''ASCII('')
      \<and> \<not> IsMatch JS True systemDbPattern ddl)"

definition dba_other_checks :: "string \<Rightarrow> bool" where
  \<comment> \<open>every check of \<open>validateDBAQuery\<close> but the one on the length\<close>
  "dba_other_checks query =
     (query \<noteq> [] \<and> clean_js query \<noteq> []
      \<and> keyword_hit JS DBA_DANGEROUS_KEYWORDS (toUpperCase (clean_js query)) = None
      \<and> \<not> pattern_hit JS DBA_DANGEROUS_PATTERNS query
      \<and> IsMatch JS True hasValidOperation (toUpperCase (clean_js query)))"

section \<open>Notions for the proofs\<close>

definition pos_after :: "char option \<Rightarrow> string \<Rightarrow> char option" where
  \<comment> \<open>the character before the position reached after reading a piece of text\<close>
  "pos_after p u = (if u = [] then p else Some (last u))"

definition plain :: "string \<Rightarrow> bool" where
  \<comment> \<open>a text of ASCII characters none of which is a small letter, as every keyword is\<close>
  "plain w = list_all (\<lambda>a. code a < 128 \<and> \<not> is_ascii_lower a) w"

definition tight :: "flavour \<Rightarrow> string \<Rightarrow> bool" where
  \<comment> \<open>a text with no white space at either end\<close>
  "tight fl s = (s = [] \<or> (\<not> is_space fl (hd s) \<and> \<not> is_space fl (last s)))"

definition plain_text :: "string \<Rightarrow> bool" where
  \<comment> \<open>a text that normalization leaves as it is: not empty, no white space at either end,
      no white space but single spaces, no hyphen and no slash\<close>
  "plain_text s =
     (s \<noteq> [] \<and> tight DotNet s \<and> \<not> contains False s ''  ''
      \<and> list_all (\<lambda>c. c \<noteq> CHR ''-'' \<and> c \<noteq> CHR ''/''
                        \<and> (\<not> is_space DotNet c \<or> c = CHR '' '')) s)"

fun spaced :: "bool \<Rightarrow> string \<Rightarrow> bool" where
  \<comment> \<open>every white-space character of the text is a space, and no two of them follow
      each other; the flag says that a space comes just before the text\<close>
  "spaced b [] = True"
| "spaced b (c # cs) =
     (if is_space JS c then c = CHR '' '' \<and> \<not> b \<and> spaced True cs else spaced False cs)"

text \<open>
  A pattern is dead on an alphabet when no text over the alphabet has a match: some
  character it must read is not in the alphabet.
\<close>

fun rx_dead :: "flavour \<Rightarrow> bool \<Rightarrow> string \<Rightarrow> rx \<Rightarrow> bool" where
  "rx_dead fl ic A (RStr w) = list_ex (\<lambda>a. list_all (\<lambda>c. \<not> char_eq ic a c) A) w"
| "rx_dead fl ic A (RCls k) = list_all (\<lambda>c. \<not> in_class fl k c) A"
| "rx_dead fl ic A (RSeq a b) = (rx_dead fl ic A a \<or> rx_dead fl ic A b)"
| "rx_dead fl ic A (RAlt a b) = (rx_dead fl ic A a \<and> rx_dead fl ic A b)"
| "rx_dead fl ic A (RPlus k) = list_all (\<lambda>c. \<not> in_class fl k c) A"
| "rx_dead fl ic A r = False"

section \<open>Evaluating the character classes\<close>

text \<open>
  The classes are defined on character codes. On a character that is written out, each of
  them is a test of its eight bits (the first argument of \<open>Char\<close> is the lowest bit).
\<close>

named_theorems char_eval

lemma code_Char:
  "code (Char b0 b1 b2 b3 b4 b5 b6 b7) =
     (if b0 then 1 else 0) + (if b1 then 2 else 0) + (if b2 then 4 else 0)
     + (if b3 then 8 else 0) + (if b4 then 16 else 0) + (if b5 then 32 else 0)
     + (if b6 then 64 else 0) + (if b7 then 128 else 0)"
  by (simp add: code_def)

lemmas char_defs =
  code_Char is_ascii_upper_def is_ascii_lower_def is_digit_def ascii_word_def
  latin1_letter_def has_capital_def is_sharp_s_def

lemma is_ascii_lower_Char [char_eval]:
  "is_ascii_lower (Char b0 b1 b2 b3 b4 b5 b6 b7) =
     (\<not> b7 \<and> (b6 \<and> (b5 \<and> (if b4 then (\<not> b3 \<or> (\<not> b2 \<and> (\<not> b1 \<or> \<not> b0))) else (b3 \<or> (b2 \<or> (b1 \<or> b0)))))))"
  by (cases b7; cases b6; cases b5; cases b4; cases b3; cases b2; cases b1; cases b0;
      simp add: char_defs)

lemma ascii_word_Char [char_eval]:
  "ascii_word (Char b0 b1 b2 b3 b4 b5 b6 b7) =
     (\<not> b7 \<and> (if b6 then (if b5 then (if b4 then (\<not> b3 \<or> (\<not> b2 \<and> (\<not> b1 \<or> \<not> b0))) else (b3 \<or> (b2 \<or> (b1 \<or> b0)))) else (if b4 then (\<not> b3 \<or> (if b2 then (b1 \<and> b0) else (\<not> b1 \<or> \<not> b0))) else (b3 \<or> (b2 \<or> (b1 \<or> b0))))) else (b5 \<and> (b4 \<and> (\<not> b3 \<or> (\<not> b2 \<and> \<not> b1))))))"
  by (cases b7; cases b6; cases b5; cases b4; cases b3; cases b2; cases b1; cases b0;
      simp add: char_defs)

lemma latin1_letter_Char [char_eval]:
  "latin1_letter (Char b0 b1 b2 b3 b4 b5 b6 b7) =
     (if b7 then (if b6 then (if b5 then (\<not> b4 \<or> (b3 \<or> (\<not> b2 \<or> (\<not> b1 \<or> \<not> b0)))) else (\<not> b4 \<or> (b3 \<or> (\<not> b2 \<or> (\<not> b1 \<or> \<not> b0))))) else (b5 \<and> (if b4 then (if b3 then (\<not> b2 \<and> (b1 \<and> \<not> b0)) else (b2 \<and> (\<not> b1 \<and> b0))) else (b3 \<and> (\<not> b2 \<and> (b1 \<and> \<not> b0)))))) else (b6 \<and> (if b5 then (if b4 then (\<not> b3 \<or> (\<not> b2 \<and> (\<not> b1 \<or> \<not> b0))) else (b3 \<or> (b2 \<or> (b1 \<or> b0)))) else (if b4 then (\<not> b3 \<or> (\<not> b2 \<and> (\<not> b1 \<or> \<not> b0))) else (b3 \<or> (b2 \<or> (b1 \<or> b0)))))))"
  by (cases b7; cases b6; cases b5; cases b4; cases b3; cases b2; cases b1; cases b0;
      simp add: char_defs)

lemma is_space_DotNet_Char [char_eval]:
  "is_space DotNet (Char b0 b1 b2 b3 b4 b5 b6 b7) =
     (if b7 then (\<not> b6 \<and> (if b5 then (\<not> b4 \<and> (\<not> b3 \<and> (\<not> b2 \<and> (\<not> b1 \<and> \<not> b0)))) else (\<not> b4 \<and> (\<not> b3 \<and> (b2 \<and> (\<not> b1 \<and> b0)))))) else (\<not> b6 \<and> (if b5 then (\<not> b4 \<and> (\<not> b3 \<and> (\<not> b2 \<and> (\<not> b1 \<and> \<not> b0)))) else (\<not> b4 \<and> (b3 \<and> (if b2 then \<not> b1 else (b1 \<or> b0)))))))"
  by (cases b7; cases b6; cases b5; cases b4; cases b3; cases b2; cases b1; cases b0;
      simp add: char_defs)

lemma is_space_JS_Char [char_eval]:
  "is_space JS (Char b0 b1 b2 b3 b4 b5 b6 b7) =
     (if b7 then (\<not> b6 \<and> (b5 \<and> (\<not> b4 \<and> (\<not> b3 \<and> (\<not> b2 \<and> (\<not> b1 \<and> \<not> b0)))))) else (\<not> b6 \<and> (if b5 then (\<not> b4 \<and> (\<not> b3 \<and> (\<not> b2 \<and> (\<not> b1 \<and> \<not> b0)))) else (\<not> b4 \<and> (b3 \<and> (if b2 then \<not> b1 else (b1 \<or> b0)))))))"
  by (cases b7; cases b6; cases b5; cases b4; cases b3; cases b2; cases b1; cases b0;
      simp add: char_defs)

lemma is_word_DotNet_Char [char_eval]:
  "is_word DotNet (Char b0 b1 b2 b3 b4 b5 b6 b7) =
     (if b7 then (if b6 then (if b5 then (\<not> b4 \<or> (b3 \<or> (\<not> b2 \<or> (\<not> b1 \<or> \<not> b0)))) else (\<not> b4 \<or> (b3 \<or> (\<not> b2 \<or> (\<not> b1 \<or> \<not> b0))))) else (b5 \<and> (if b4 then (if b3 then (\<not> b2 \<and> (b1 \<and> \<not> b0)) else (b2 \<and> (\<not> b1 \<and> b0))) else (b3 \<and> (\<not> b2 \<and> (b1 \<and> \<not> b0)))))) else (if b6 then (if b5 then (if b4 then (\<not> b3 \<or> (\<not> b2 \<and> (\<not> b1 \<or> \<not> b0))) else (b3 \<or> (b2 \<or> (b1 \<or> b0)))) else (if b4 then (\<not> b3 \<or> (if b2 then (b1 \<and> b0) else (\<not> b1 \<or> \<not> b0))) else (b3 \<or> (b2 \<or> (b1 \<or> b0))))) else (b5 \<and> (b4 \<and> (\<not> b3 \<or> (\<not> b2 \<and> \<not> b1))))))"
  by (cases b7; cases b6; cases b5; cases b4; cases b3; cases b2; cases b1; cases b0;
      simp add: char_defs)

lemma has_capital_Char [char_eval]:
  "has_capital (Char b0 b1 b2 b3 b4 b5 b6 b7) =
     (if b7 then (b6 \<and> (b5 \<and> (\<not> b4 \<or> (if b3 then (\<not> b2 \<or> (\<not> b1 \<or> \<not> b0)) else (\<not> b2 \<or> (\<not> b1 \<or> \<not> b0)))))) else (b6 \<and> (b5 \<and> (if b4 then (\<not> b3 \<or> (\<not> b2 \<and> (\<not> b1 \<or> \<not> b0))) else (b3 \<or> (b2 \<or> (b1 \<or> b0)))))))"
  by (cases b7; cases b6; cases b5; cases b4; cases b3; cases b2; cases b1; cases b0;
      simp add: char_defs)

lemma is_sharp_s_Char [char_eval]:
  "is_sharp_s (Char b0 b1 b2 b3 b4 b5 b6 b7) =
     (b7 \<and> (b6 \<and> (\<not> b5 \<and> (b4 \<and> (b3 \<and> (b2 \<and> (b1 \<and> b0)))))))"
  by (cases b7; cases b6; cases b5; cases b4; cases b3; cases b2; cases b1; cases b0;
      simp add: char_defs)

lemma is_word_JS_Char [char_eval]:
  "is_word JS (Char b0 b1 b2 b3 b4 b5 b6 b7) = ascii_word (Char b0 b1 b2 b3 b4 b5 b6 b7)"
  by simp

lemma is_newline_Char [char_eval]:
  "is_newline DotNet (Char b0 b1 b2 b3 b4 b5 b6 b7) =
     (\<not> b0 \<and> b1 \<and> \<not> b2 \<and> b3 \<and> \<not> b4 \<and> \<not> b5 \<and> \<not> b6 \<and> \<not> b7)"
  "is_newline JS (Char b0 b1 b2 b3 b4 b5 b6 b7) =
     (b3 \<and> \<not> b1 \<and> b2 \<and> b0 \<and> \<not> b4 \<and> \<not> b5 \<and> \<not> b6 \<and> \<not> b7
      \<or> \<not> b0 \<and> b1 \<and> \<not> b2 \<and> b3 \<and> \<not> b4 \<and> \<not> b5 \<and> \<not> b6 \<and> \<not> b7)"
  by (cases b7; cases b6; cases b5; cases b4; cases b3; cases b2; cases b1; cases b0;
      simp add: char_defs)+

lemma ascii_fold_Char [char_eval]:
  "ascii_fold (Char b0 b1 b2 b3 b4 b5 b6 b7) =
     (if is_ascii_lower (Char b0 b1 b2 b3 b4 b5 b6 b7) then Char b0 b1 b2 b3 b4 False b6 b7
      else Char b0 b1 b2 b3 b4 b5 b6 b7)"
  by (cases b7; cases b6; cases b5; cases b4; cases b3; cases b2; cases b1; cases b0;
      simp add: char_defs ascii_fold_def char_of_def bit_iff_odd)

lemma capital_Char [char_eval]:
  "capital (Char b0 b1 b2 b3 b4 b5 b6 b7) =
     (if has_capital (Char b0 b1 b2 b3 b4 b5 b6 b7) then Char b0 b1 b2 b3 b4 False b6 b7
      else Char b0 b1 b2 b3 b4 b5 b6 b7)"
  by (cases b7; cases b6; cases b5; cases b4; cases b3; cases b2; cases b1; cases b0;
      simp add: char_defs capital_def char_of_def bit_iff_odd)


declare is_space.simps [simp del] is_word.simps [simp del] is_newline.simps [simp del]

declare char_eval [code]

section \<open>Properties of the pattern matcher\<close>


lemma pos_after_simps [simp]:
  "pos_after p [] = p" "pos_after p (c # u) = pos_after (Some c) u"
  "pos_after p (u @ [c]) = Some c"
  by (auto simp: pos_after_def)

lemma pos_after_append: "pos_after p (u @ v) = pos_after (pos_after p u) v"
  by (auto simp: pos_after_def)

lemma str_step_eq:
  "str_step ic w (p, s) =
     (if starts_with ic s w then [(pos_after p (take (length w) s), drop (length w) s)] else [])"
proof (induction w arbitrary: p s)
  case Nil
  then show ?case by simp
next
  case (Cons a w)
  then show ?case by (cases s) auto
qed

lemma starts_with_iff:
  "starts_with ic s w \<longleftrightarrow>
     length w \<le> length s \<and> list_all2 (char_eq ic) w (take (length w) s)"
proof (induction ic s w rule: starts_with.induct)
qed auto

lemma rx_search_iff:
  "rx_search fl ic r (p, s) \<longleftrightarrow>
     (\<exists>u v. s = u @ v \<and> rx_step fl ic r (pos_after p u, v) \<noteq> [])"
proof (induction s arbitrary: p)
  case Nil
  then show ?case by simp
next
  case (Cons c cs)
  show ?case
  proof
    assume "rx_search fl ic r (p, c # cs)"
    then consider "rx_step fl ic r (p, c # cs) \<noteq> []" | "rx_search fl ic r (Some c, cs)"
      by auto
    then show "\<exists>u v. c # cs = u @ v \<and> rx_step fl ic r (pos_after p u, v) \<noteq> []"
    proof cases
      case 1
      then have "c # cs = [] @ (c # cs) \<and> rx_step fl ic r (pos_after p [], c # cs) \<noteq> []"
        by simp
      then show ?thesis by blast
    next
      case 2
      then obtain u v where "cs = u @ v" "rx_step fl ic r (pos_after (Some c) u, v) \<noteq> []"
        using Cons.IH by blast
      then have "c # cs = (c # u) @ v \<and> rx_step fl ic r (pos_after p (c # u), v) \<noteq> []"
        by simp
      then show ?thesis by blast
    qed
  next
    assume "\<exists>u v. c # cs = u @ v \<and> rx_step fl ic r (pos_after p u, v) \<noteq> []"
    then obtain u v where uv: "c # cs = u @ v" "rx_step fl ic r (pos_after p u, v) \<noteq> []"
      by blast
    show "rx_search fl ic r (p, c # cs)"
    proof (cases u)
      case Nil
      then show ?thesis using uv by auto
    next
      case (Cons d u')
      then have "cs = u' @ v" "rx_step fl ic r (pos_after (Some c) u', v) \<noteq> []"
        using uv by auto
      then have "rx_search fl ic r (Some c, cs)"
        using Cons.IH by blast
      then show ?thesis by simp
    qed
  qed
qed

lemma contains_iff:
  "contains ic s w \<longleftrightarrow> (\<exists>u v. s = u @ v \<and> starts_with ic v w)"
proof (induction s)
  case Nil
  then show ?case by simp
next
  case (Cons c cs)
  show ?case
  proof
    assume "contains ic (c # cs) w"
    then consider "starts_with ic (c # cs) w" | "contains ic cs w" by auto
    then show "\<exists>u v. c # cs = u @ v \<and> starts_with ic v w"
    proof cases
      case 1
      then have "c # cs = [] @ (c # cs) \<and> starts_with ic (c # cs) w" by simp
      then show ?thesis by blast
    next
      case 2
      then obtain u v where "cs = u @ v" "starts_with ic v w" using Cons.IH by blast
      then have "c # cs = (c # u) @ v \<and> starts_with ic v w" by simp
      then show ?thesis by blast
    qed
  next
    assume "\<exists>u v. c # cs = u @ v \<and> starts_with ic v w"
    then obtain u v where uv: "c # cs = u @ v" "starts_with ic v w" by blast
    show "contains ic (c # cs) w"
    proof (cases u)
      case Nil
      then show ?thesis using uv by auto
    next
      case (Cons d u')
      then have "cs = u' @ v" using uv by simp
      then have "contains ic cs w" using Cons.IH uv(2) by blast
      then show ?thesis by simp
    qed
  qed
qed

lemma IsMatch_RStr: "IsMatch fl ic (RStr w) s = contains ic s w"
proof -
  have "rx_step fl ic (RStr w) (q, v) \<noteq> [] \<longleftrightarrow> starts_with ic v w" for q v
    by (simp add: str_step_eq)
  then show ?thesis
    unfolding IsMatch_def rx_search_iff contains_iff by blast
qed

lemma star_step_suffix:
  "(p', s') \<in> set (star_step fl k (p, s)) \<Longrightarrow> \<exists>u. s = u @ s' \<and> p' = pos_after p u \<and> list_all (in_class fl k) u"
proof (induction s arbitrary: p)
  case Nil
  then show ?case by simp
next
  case (Cons c cs)
  then consider "(p', s') = (p, c # cs)"
    | "in_class fl k c" "(p', s') \<in> set (star_step fl k (Some c, cs))"
    by (auto split: if_splits)
  then show ?case
  proof cases
    case 1
    then have "c # cs = [] @ s' \<and> p' = pos_after p [] \<and> list_all (in_class fl k) []" by simp
    then show ?thesis by blast
  next
    case 2
    then obtain u where "cs = u @ s'" "p' = pos_after (Some c) u" "list_all (in_class fl k) u"
      using Cons.IH by blast
    then have "c # cs = (c # u) @ s' \<and> p' = pos_after p (c # u) \<and> list_all (in_class fl k) (c # u)"
      using 2 by simp
    then show ?thesis by blast
  qed
qed

lemma rx_step_suffix:
  "(p', s') \<in> set (rx_step fl ic r (p, s)) \<Longrightarrow> \<exists>u. s = u @ s' \<and> p' = pos_after p u"
proof (induction r arbitrary: p s p' s')
  case (RStr w)
  then have "s = take (length w) s @ s' \<and> p' = pos_after p (take (length w) s)"
    by (auto simp: str_step_eq split: if_splits)
  then show ?case by blast
next
  case (RCls k)
  then show ?case by (cases s) (auto split: if_splits intro: exI [of _ "[hd s]"])
next
  case (RSeq a b)
  then obtain q t where 1: "(q, t) \<in> set (rx_step fl ic a (p, s))"
    and 2: "(p', s') \<in> set (rx_step fl ic b (q, t))"
    by auto
  from RSeq.IH(1) [OF 1] obtain u where u: "s = u @ t" "q = pos_after p u" by blast
  from RSeq.IH(2) [OF 2] obtain v where v: "t = v @ s'" "p' = pos_after q v" by blast
  have "s = (u @ v) @ s' \<and> p' = pos_after p (u @ v)"
    using u v by (simp add: pos_after_append)
  then show ?case by blast
next
  case (RAlt a b)
  then show ?case by auto
next
  case (RStar k)
  then show ?case using star_step_suffix by fastforce
next
  case (RPlus k)
  show ?case
  proof (cases s)
    case Nil
    then show ?thesis using RPlus by simp
  next
    case (Cons c cs)
    then have "(p', s') \<in> set (star_step fl k (Some c, cs))"
      using RPlus by (auto split: if_splits)
    then obtain u where "cs = u @ s'" "p' = pos_after (Some c) u"
      using star_step_suffix by blast
    then have "s = (c # u) @ s' \<and> p' = pos_after p (c # u)" using Cons by simp
    then show ?thesis by blast
  qed
next
  case (ROpt a)
  then consider "(p', s') \<in> set (rx_step fl ic a (p, s))" | "(p', s') = (p, s)" by auto
  then show ?case
  proof cases
    case 1
    then show ?thesis using ROpt.IH by blast
  next
    case 2
    then have "s = [] @ s' \<and> p' = pos_after p []" by simp
    then show ?thesis by blast
  qed
next
  case RBol
  then have "s = [] @ s' \<and> p' = pos_after p []" by (auto split: if_splits)
  then show ?case by blast
next
  case REol
  then have "s = [] @ s' \<and> p' = pos_after p []" by (auto split: if_splits)
  then show ?case by blast
next
  case RWordB
  then have "s = [] @ s' \<and> p' = pos_after p []" by (auto split: if_splits)
  then show ?case by blast
qed

lemma str_dead: 
  "list_ex (\<lambda>a. list_all (\<lambda>c. \<not> char_eq ic a c) A) w \<Longrightarrow> set s \<subseteq> set A \<Longrightarrow> \<not> starts_with ic s w"
proof (induction ic s w rule: starts_with.induct)
  case (1 ic s)
  then show ?case by simp
next
  case (2 ic a as)
  then show ?case by simp
next
  case (3 ic c cs a as)
  then show ?case by (auto simp: list_all_iff)
qed

lemma rx_dead_step:
  "rx_dead fl ic A r \<Longrightarrow> set s \<subseteq> set A \<Longrightarrow> rx_step fl ic r (p, s) = []"
proof (induction r arbitrary: p s)
  case (RStr w)
  then show ?case using str_dead by (simp add: str_step_eq)
next
  case (RCls k)
  then show ?case by (cases s) (auto simp: list_all_iff)
next
  case (RSeq a b)
  show ?case
  proof (cases "rx_dead fl ic A a")
    case True
    then show ?thesis using RSeq by simp
  next
    case False
    then have b: "rx_dead fl ic A b" using RSeq.prems by simp
    have "rx_step fl ic b st = []" if mem: "st \<in> set (rx_step fl ic a (p, s))" for st
    proof -
      obtain q t where st: "st = (q, t)" by (cases st)
      then obtain u where "s = u @ t" using mem rx_step_suffix by blast
      then have "set t \<subseteq> set A" using RSeq.prems(2) by auto
      then show ?thesis using RSeq.IH(2) [OF b] st by simp
    qed
    then show ?thesis by simp
  qed
next
  case (RAlt a b)
  then show ?case by simp
next
  case (RPlus k)
  then show ?case by (cases s) (auto simp: list_all_iff)
qed simp_all

lemma rx_dead_IsMatch:
  assumes "rx_dead fl ic A r" "set s \<subseteq> set A"
  shows "\<not> IsMatch fl ic r s"
proof
  assume "IsMatch fl ic r s"
  then obtain u v where "s = u @ v" "rx_step fl ic r (pos_after None u, v) \<noteq> []"
    by (auto simp: IsMatch_def rx_search_iff)
  moreover have "set v \<subseteq> set A" using assms(2) calculation(1) by auto
  ultimately show False using rx_dead_step [OF assms(1)] by blast
qed

section \<open>Capitals and comparisons that ignore case\<close>


lemma code_less_256: "code c < 256"
  by (simp add: code_def)

lemma code_char_of: "n < 256 \<Longrightarrow> code (char_of n) = n"
  by (simp add: code_def)

lemma capital_ascii: "code c < 128 \<Longrightarrow> capital c = ascii_fold c"
  by (auto simp: capital_def ascii_fold_def has_capital_def)

lemma capital_high: "\<not> code c < 128 \<Longrightarrow> \<not> code (capital c) < 128"
  using code_less_256 [of c]
  by (auto simp: capital_def has_capital_def is_ascii_lower_def code_char_of)

lemma ascii_fold_high: "\<not> code c < 128 \<Longrightarrow> ascii_fold c = c"
  by (auto simp: ascii_fold_def is_ascii_lower_def)

lemma ascii_fold_plain: "\<not> is_ascii_lower a \<Longrightarrow> ascii_fold a = a"
  by (simp add: ascii_fold_def)

lemma plain_char_eq:
  assumes "code a < 128" "\<not> is_ascii_lower a"
  shows "char_eq False a (capital c) = char_eq True a c"
proof (cases "code c < 128")
  case True
  then show ?thesis
    using assms by (simp add: char_eq_def capital_ascii ascii_fold_plain)
next
  case False
  then have "a \<noteq> capital c" "a \<noteq> c"
    using assms(1) capital_high by auto
  then show ?thesis
    using assms False by (simp add: char_eq_def ascii_fold_high ascii_fold_plain)
qed

lemma starts_with_upper:
  "plain w \<Longrightarrow> starts_with False (ToUpperInvariant s) w = starts_with True s w"
proof (induction s arbitrary: w)
  case Nil
  then show ?case by (cases w) (simp_all add: ToUpperInvariant_def)
next
  case (Cons c cs)
  show ?case
  proof (cases w)
    case Nil
    then show ?thesis by simp
  next
    case (Cons a as)
    then have "plain as" "code a < 128" "\<not> is_ascii_lower a"
      using Cons.prems by (simp_all add: plain_def)
    then show ?thesis
      using Cons.IH [of as] Cons plain_char_eq [of a c]
      by (simp add: ToUpperInvariant_def)
  qed
qed

lemma contains_upper:
  "plain w \<Longrightarrow> contains False (ToUpperInvariant s) w = contains True s w"
proof (induction s)
  case Nil
  then show ?case using starts_with_upper [of w "[]"] by (simp add: ToUpperInvariant_def)
next
  case (Cons c cs)
  then show ?case
    using starts_with_upper [of w "c # cs"] by (simp add: ToUpperInvariant_def)
qed

section \<open>The validators, check by check\<close>


lemma read_accept:
  "read_other_checks sql \<Longrightarrow> length sql \<le> 10000 \<Longrightarrow>
   ValidateReadQuery sql = Result True ''Query validation passed''"
  by (simp add: ValidateReadQuery_def read_other_checks_def read_checks_before_conversion_def
        char_conversion_def Let_def)

lemma read_too_long:
  "read_other_checks sql \<Longrightarrow> 10000 < length sql \<Longrightarrow>
   ValidateReadQuery sql =
     Result False ''Query is too long. Maximum allowed length is 10,000 characters.''"
  by (simp add: ValidateReadQuery_def read_other_checks_def read_checks_before_conversion_def
        char_conversion_def Let_def)

lemma read_conversion:
  "read_checks_before_conversion sql \<Longrightarrow> char_conversion sql \<Longrightarrow>
   ValidateReadQuery sql =
     Result False
       ''Character conversion functions are not allowed as they may be used for obfuscation.''"
  by (simp add: ValidateReadQuery_def read_checks_before_conversion_def
        char_conversion_def Let_def)

lemma read_valid_iff:
  "IsValid (ValidateReadQuery sql) \<longleftrightarrow> read_other_checks sql \<and> length sql \<le> 10000"
  by (auto simp: ValidateReadQuery_def read_other_checks_def read_checks_before_conversion_def
        char_conversion_def Let_def Result_def split: option.splits)


lemma update_valid_iff:
  "IsValid (ValidateUpdateQuery sql) \<longleftrightarrow> update_other_checks sql \<and> length sql \<le> 10000"
  by (auto simp: ValidateUpdateQuery_def update_other_checks_def Let_def Result_def
        split: option.splits)

lemma update_accept:
  "update_other_checks sql \<Longrightarrow> length sql \<le> 10000 \<Longrightarrow>
   ValidateUpdateQuery sql = Result True ''Query validation passed''"
  by (simp add: ValidateUpdateQuery_def update_other_checks_def Let_def)

lemma update_too_long:
  "update_other_checks sql \<Longrightarrow> 10000 < length sql \<Longrightarrow>
   ValidateUpdateQuery sql =
     Result False ''Query is too long. Maximum allowed length is 10,000 characters.''"
  by (simp add: ValidateUpdateQuery_def update_other_checks_def Let_def)



lemma update_missing_where_iff:
  assumes "\<not> IsNullOrWhiteSpace sql" "\<not> IsNullOrWhiteSpace (clean_dotnet sql)"
    "starts_with False (ToUpperInvariant (clean_dotnet sql)) ''UPDATE''"
  shows "ValidateUpdateQuery sql =
           Result False ''UPDATE queries must include a WHERE clause for security reasons''
         \<longleftrightarrow> \<not> contains False (ToUpperInvariant (clean_dotnet sql)) '' WHERE ''"
  using assms
  by (auto simp: ValidateUpdateQuery_def Let_def Result_def split: option.splits)

lemma dba_accept:
  "dba_other_checks query \<Longrightarrow> length query \<le> 50000 \<Longrightarrow> validateDBAQuery query = valid"
  by (simp add: validateDBAQuery_def dba_other_checks_def Let_def)

lemma dba_too_long:
  "dba_other_checks query \<Longrightarrow> 50000 < length query \<Longrightarrow>
   validateDBAQuery query =
     invalid ''Query batch is too long. Maximum allowed length is 50,000 characters.''"
  by (simp add: validateDBAQuery_def dba_other_checks_def Let_def)

lemma dba_valid_iff:
  "validateDBAQuery query = valid \<longleftrightarrow> dba_other_checks query \<and> length query \<le> 50000"
  by (auto simp: validateDBAQuery_def dba_other_checks_def Let_def valid_def invalid_def
        split: option.splits)


lemma ddl_before_patterns:
  assumes "ddl_checks_before_patterns this ddl"
  shows "validateDDL this ddl =
     (if pattern_hit JS DDL_DANGEROUS_PATTERNS ddl
      then Inr (invalid ''Potentially malicious SQL pattern detected in DDL statement.'')
      else let statements = filter (\<lambda>stmt. length (Trim JS stmt) > 0)
                              (Split (CHR '';'') (clean_js ddl)) in
        case (if length statements > 1 then all_statements_DDL this statements else Inr True) of
          Inl e \<Rightarrow> Inl e
        | Inr ok \<Rightarrow>
            if \<not> ok then Inr (invalid ''All statements in a batch must be valid DDL operations.'')
            else Inr (validateDDL_tail ddl))"
  using assms
  by (auto simp: validateDDL_def validateDDL_scan_def ddl_checks_before_patterns_def Let_def)

lemma ddl_pattern:
  "ddl_checks_before_patterns this ddl \<Longrightarrow> pattern_hit JS DDL_DANGEROUS_PATTERNS ddl \<Longrightarrow>
   validateDDL this ddl =
     Inr (invalid ''Potentially malicious SQL pattern detected in DDL statement.'')"
  by (simp add: ddl_before_patterns)

lemma ddl_accept:
  "ddl_other_checks this ddl \<Longrightarrow> length ddl \<le> 50000 \<Longrightarrow> validateDDL this ddl = Inr valid"
  by (auto simp: ddl_before_patterns ddl_other_checks_def validateDDL_tail_def Let_def)

lemma ddl_too_long:
  "ddl_other_checks this ddl \<Longrightarrow> 50000 < length ddl \<Longrightarrow>
   validateDDL this ddl =
     Inr (invalid ''DDL statement is too long. Maximum allowed length is 50,000 characters.'')"
  by (auto simp: ddl_before_patterns ddl_other_checks_def validateDDL_tail_def Let_def)


lemma ddl_keyword:
  "ddl \<noteq> [] \<Longrightarrow> clean_js ddl \<noteq> [] \<Longrightarrow>
   this_some this ''ALLOWED_DDL_KEYWORDS''
     (\<lambda>keyword. starts_with False (toUpperCase (clean_js ddl)) (keyword @ '' '')) = Inr True \<Longrightarrow>
   (starts_with False (toUpperCase (clean_js ddl)) ''CREATE ''
      \<or> starts_with False (toUpperCase (clean_js ddl)) ''ALTER ''
    \<longrightarrow> this_some this ''ALLOWED_OBJECT_TYPES''
          (\<lambda>objType. contains False (toUpperCase (clean_js ddl)) ('' '' @ objType @ '' ''))
        = Inr True) \<Longrightarrow>
   keyword_hit JS DDL_DANGEROUS_KEYWORDS (toUpperCase (clean_js ddl)) = Some k \<Longrightarrow>
   validateDDL this ddl =
     Inr (invalid (''Dangerous keyword '' @ quoted k
            @ '' detected in DDL statement. Only safe DDL operations are allowed.''))"
  by (auto simp: validateDDL_def validateDDL_scan_def Let_def)

section \<open>Normalization\<close>


lemma strip_line_comments_id:
  "\<not> contains False s ''--'' \<Longrightarrow> strip_line_comments fl s = s"
  by (induction fl s rule: strip_line_comments.induct) (auto simp: char_eq_def)

lemma strip_block_comments_id:
  "\<not> contains False s ''/*'' \<Longrightarrow> strip_block_comments s = s"
  by (induction s rule: strip_block_comments.induct) (auto simp: char_eq_def)

lemma contains_needs_char:
  assumes "contains ic s w" "a \<in> set w"
  shows "\<exists>c \<in> set s. char_eq ic a c"
proof -
  obtain u v where uv: "s = u @ v" "starts_with ic v w"
    using assms(1) contains_iff by blast
  let ?t = "take (length w) v"
  have l: "list_all2 (char_eq ic) w ?t"
    using uv(2) by (simp add: starts_with_iff)
  obtain i where i: "i < length w" "w ! i = a"
    using assms(2) by (auto simp: in_set_conv_nth)
  have "length w = length ?t"
    using l by (rule list_all2_lengthD)
  then have "i < length ?t"
    using i(1) by simp
  then have m: "?t ! i \<in> set ?t"
    by (rule nth_mem)
  have "char_eq ic (w ! i) (?t ! i)"
    using l i(1) by (rule list_all2_nthD)
  then have e: "char_eq ic a (?t ! i)"
    using i(2) by simp
  have "?t ! i \<in> set v"
    using m by (rule in_set_takeD)
  then have "?t ! i \<in> set s"
    using uv(1) by simp
  then show ?thesis
    using e by blast
qed

lemma Replace_char_id: "a \<notin> set s \<Longrightarrow> Replace_char a b s = s"
  by (induction s) (auto simp: Replace_char_def)

lemma set_Replace_char: "set (Replace_char a b s) \<subseteq> (set s - {a}) \<union> {b}"
  by (auto simp: Replace_char_def)







lemma space_is_space: "is_space fl (CHR '' '')"
  by (cases fl) (simp_all add: char_eval)





lemma while_double_spaces_id: "\<not> contains False s ''  '' \<Longrightarrow> while_double_spaces s = s"
  by (subst while_double_spaces.simps) simp




section \<open>Texts padded with spaces\<close>


lemma is_space_JS_DotNet: "is_space JS c \<Longrightarrow> is_space DotNet c"
  by (auto simp: is_space.simps)

lemma strip_line_comments_no_hyphen:
  "CHR ''-'' \<notin> set s \<Longrightarrow> strip_line_comments fl s = s"
  using contains_needs_char [of False s "''--''" "CHR ''-''"]
  by (intro strip_line_comments_id) (auto simp: char_eq_def)

lemma strip_block_comments_no_slash:
  "CHR ''/'' \<notin> set s \<Longrightarrow> strip_block_comments s = s"
  using contains_needs_char [of False s "''/*''" "CHR ''/''"]
  by (intro strip_block_comments_id) (auto simp: char_eq_def)

lemma Trim_padded:
  assumes "s \<noteq> []" "tight fl s" "list_all (is_space fl) pad"
  shows "Trim fl (s @ pad) = s"
proof -
  have h: "\<not> is_space fl (hd s)" and l: "\<not> is_space fl (last s)"
    using assms(1,2) by (simp_all add: tight_def)
  have "hd (s @ pad) = hd s" using assms(1) by simp
  then have 1: "dropWhile (is_space fl) (s @ pad) = s @ pad"
    using h by (simp add: dropWhile_eq_self_iff)
  have "dropWhile (is_space fl) (rev pad @ rev s) = dropWhile (is_space fl) (rev s)"
    using assms(3) by (intro dropWhile_append2) (simp add: list_all_iff)
  moreover have "hd (rev s) = last s" using assms(1) by (simp add: hd_rev)
  then have "dropWhile (is_space fl) (rev s) = rev s"
    using l by (simp add: dropWhile_eq_self_iff)
  ultimately have 2: "dropWhile (is_space fl) (rev (s @ pad)) = rev s"
    by simp
  show ?thesis
    by (simp only: Trim_def 1 2 rev_rev_ident)
qed

lemma plain_text_parts:
  assumes "plain_text s"
  shows "s \<noteq> []" "tight DotNet s" "tight JS s" "\<not> contains False s ''  ''"
    "CHR ''-'' \<notin> set s" "CHR ''/'' \<notin> set s"
    "CHR 0x09 \<notin> set s" "CHR 0x0A \<notin> set s" "CHR 0x0D \<notin> set s"
    "\<And>c. c \<in> set s \<Longrightarrow> is_space JS c \<Longrightarrow> c = CHR '' ''"
proof -
  have a: "c \<noteq> CHR ''-'' \<and> c \<noteq> CHR ''/'' \<and> (\<not> is_space DotNet c \<or> c = CHR '' '')"
    if "c \<in> set s" for c
    using assms that by (simp add: plain_text_def list_all_iff)
  show "s \<noteq> []" "tight DotNet s" "\<not> contains False s ''  ''"
    using assms by (simp_all add: plain_text_def)
  then show "tight JS s"
    using is_space_JS_DotNet by (auto simp: tight_def)
  show "CHR ''-'' \<notin> set s" "CHR ''/'' \<notin> set s"
    using a by blast+
  have "is_space DotNet (CHR 0x09)" "is_space DotNet (CHR 0x0A)" "is_space DotNet (CHR 0x0D)"
    by (simp_all add: char_eval)
  then show "CHR 0x09 \<notin> set s" "CHR 0x0A \<notin> set s" "CHR 0x0D \<notin> set s"
    using a by fastforce+
  show "c = CHR '' ''" if "c \<in> set s" "is_space JS c" for c
    using a [OF that(1)] is_space_JS_DotNet [OF that(2)] by simp
qed

lemma set_padded: "set (s @ replicate n c) \<subseteq> set (c # s)"
  by auto

lemma clean_dotnet_padded:
  assumes "plain_text s"
  shows "clean_dotnet (s @ replicate n (CHR '' '')) = s"
proof -
  let ?p = "s @ replicate n (CHR '' '')"
  note p = plain_text_parts [OF assms]
  have "CHR ''-'' \<notin> set ?p" "CHR ''/'' \<notin> set ?p"
    using p(5,6) by auto
  then have 1: "RemoveComments ?p = ?p"
    by (simp add: RemoveComments_def strip_line_comments_no_hyphen strip_block_comments_no_slash)
  have "CHR 0x09 \<notin> set ?p" "CHR 0x0A \<notin> set ?p" "CHR 0x0D \<notin> set ?p"
    using p(7,8,9) by auto
  then have 2: "Replace_char (CHR 0x0D) (CHR '' '')
             (Replace_char (CHR 0x0A) (CHR '' '') (Replace_char (CHR 0x09) (CHR '' '') ?p)) = ?p"
    by (simp add: Replace_char_id)
  have "list_all (is_space DotNet) (replicate n (CHR '' ''))"
    by (simp add: list_all_iff space_is_space)
  then have 3: "Trim DotNet ?p = s"
    using p(1,2) by (intro Trim_padded)
  have 4: "while_double_spaces s = s"
    using p(4) by (rule while_double_spaces_id)
  show ?thesis
    by (subst clean_dotnet_def) (simp only: 1 2 3 4)
qed

lemma replace_ws_runs_id:
  "\<not> contains False s ''  '' \<Longrightarrow> (\<And>c. c \<in> set s \<Longrightarrow> is_space JS c \<Longrightarrow> c = CHR '' '') \<Longrightarrow>
   replace_ws_runs s = s"
proof (induction s rule: replace_ws_runs.induct)
  case 1
  then show ?case by simp
next
  case (2 c cs)
  show ?case
  proof (cases "is_space JS c")
    case True
    then have c: "c = CHR '' ''" using "2.prems"(2) by simp
    have d: "dropWhile (is_space JS) cs = cs"
    proof (cases cs)
      case Nil
      then show ?thesis by simp
    next
      case (Cons d ds)
      then have "d \<noteq> CHR '' ''"
        using "2.prems"(1) c by (auto simp: char_eq_def)
      then have "\<not> is_space JS d"
        using "2.prems"(2) [of d] Cons by auto
      then show ?thesis using Cons by simp
    qed
    have "\<not> contains False cs ''  ''" using "2.prems"(1) by simp
    then have "replace_ws_runs cs = cs"
      using "2.IH"(1) [OF True] "2.prems"(2) d by simp
    then show ?thesis using True c d by simp
  next
    case False
    have "\<not> contains False cs ''  ''" using "2.prems"(1) by simp
    then have "replace_ws_runs cs = cs"
      using "2.IH"(2) [OF False] "2.prems"(2) by simp
    then show ?thesis using False by simp
  qed
qed

lemma replace_ws_runs_spaces:
  "replace_ws_runs (replicate n (CHR '' '')) = (if n = 0 then [] else '' '')"
  by (cases n) (simp_all add: space_is_space)

lemma replace_ws_runs_padded:
  "s \<noteq> [] \<Longrightarrow> \<not> is_space JS (last s) \<Longrightarrow>
   replace_ws_runs (s @ replicate n (CHR '' ''))
     = replace_ws_runs s @ (if n = 0 then [] else '' '')"
proof (induction s rule: replace_ws_runs.induct)
  case 1
  then show ?case by simp
next
  case (2 c cs)
  let ?pad = "replicate n (CHR '' '')"
  show ?case
  proof (cases "is_space JS c")
    case True
    then have cs: "cs \<noteq> []" using "2.prems" by auto
    then have l: "\<not> is_space JS (last cs)" using "2.prems" by simp
    then have ex: "last cs \<in> set cs" using cs by simp
    have d: "dropWhile (is_space JS) (cs @ ?pad) = dropWhile (is_space JS) cs @ ?pad"
      using ex l by (rule dropWhile_append1)
    have ne: "dropWhile (is_space JS) cs \<noteq> []"
      using ex l by auto
    have "last (dropWhile (is_space JS) cs) = last cs"
      using ne by (metis last_appendR takeWhile_dropWhile_id)
    then have "replace_ws_runs (dropWhile (is_space JS) cs @ ?pad)
        = replace_ws_runs (dropWhile (is_space JS) cs) @ (if n = 0 then [] else '' '')"
      using "2.IH"(1) [OF True ne] l by simp
    then show ?thesis using True d by simp
  next
    case False
    show ?thesis
    proof (cases "cs = []")
      case True
      then show ?thesis using False by (simp add: replace_ws_runs_spaces)
    next
      case ne: False
      then have "\<not> is_space JS (last cs)" using "2.prems" by simp
      then show ?thesis using "2.IH"(2) [OF False ne] False by simp
    qed
  qed
qed

lemma clean_js_padded:
  assumes "plain_text s"
  shows "clean_js (s @ replicate n (CHR '' '')) = s"
proof -
  let ?p = "s @ replicate n (CHR '' '')"
  note p = plain_text_parts [OF assms]
  have "CHR ''-'' \<notin> set ?p" "CHR ''/'' \<notin> set ?p"
    using p(5,6) by auto
  then have 1: "strip_block_comments (strip_line_comments JS ?p) = ?p"
    by (simp add: strip_line_comments_no_hyphen strip_block_comments_no_slash)
  have l: "\<not> is_space JS (last s)" using p(1,3) by (simp add: tight_def)
  have "replace_ws_runs s = s"
    using p(4) p(10) by (rule replace_ws_runs_id)
  then have 2: "replace_ws_runs ?p = s @ (if n = 0 then [] else '' '')"
    using replace_ws_runs_padded [OF p(1) l, of n] by simp
  have "list_all (is_space JS) (if n = 0 then [] else '' '')"
    by (simp add: space_is_space)
  then have 3: "Trim JS (s @ (if n = 0 then [] else '' '')) = s"
    using p(1,3) by (intro Trim_padded)
  show ?thesis
    by (subst clean_js_def) (simp only: 1 2 3)
qed

lemma not_blank_padded: "plain_text s \<Longrightarrow> \<not> IsNullOrWhiteSpace (s @ pad)"
proof -
  assume "plain_text s"
  then have "s \<noteq> []" "\<not> is_space DotNet (hd s)"
    using plain_text_parts(1,2) by (auto simp: tight_def)
  then show ?thesis
    by (cases s) (simp_all add: IsNullOrWhiteSpace_def)
qed

lemma pattern_dead:
  assumes "list_all (\<lambda>(ic, r). rx_dead fl ic A r) patterns" "set s \<subseteq> set A"
  shows "\<not> pattern_hit fl patterns s"
  using assms rx_dead_IsMatch
  by (fastforce simp: pattern_hit_def list_all_iff list_ex_iff)

lemma contains_dead:
  assumes "rx_dead fl ic A (RStr w)" "set s \<subseteq> set A"
  shows "\<not> contains ic s w"
  using rx_dead_IsMatch [OF assms] by (simp add: IsMatch_RStr)

lemma read_other_checks_padded:
  assumes "plain_text base"
    and "starts_with False (ToUpperInvariant base) ''SELECT''"
    and "keyword_hit DotNet DangerousKeywords (ToUpperInvariant base) = None"
    and "length (filter (\<lambda>stmt. \<not> IsNullOrWhiteSpace stmt) (Split (CHR '';'') base)) \<le> 1"
    and "list_all (\<lambda>(ic, r). rx_dead DotNet ic (CHR '' '' # base) r) DangerousPatterns"
    and "rx_dead DotNet True (CHR '' '' # base) (RStr ''CHAR('')"
    and "rx_dead DotNet True (CHR '' '' # base) (RStr ''NCHAR('')"
    and "rx_dead DotNet True (CHR '' '' # base) (RStr ''ASCII('')"
  shows "read_other_checks (base @ replicate n (CHR '' ''))"
proof -
  let ?p = "base @ replicate n (CHR '' '')"
  have c: "clean_dotnet ?p = base"
    using assms(1) by (rule clean_dotnet_padded)
  have s: "set ?p \<subseteq> set (CHR '' '' # base)"
    by (rule set_padded)
  have 1: "\<not> IsNullOrWhiteSpace ?p"
    using assms(1) by (rule not_blank_padded)
  have 2: "\<not> IsNullOrWhiteSpace base"
    using not_blank_padded [OF assms(1), of "[]"] by simp
  have 3: "\<not> pattern_hit DotNet DangerousPatterns ?p"
    using assms(5) s by (rule pattern_dead)
  have 4: "\<not> char_conversion ?p"
    using contains_dead [OF assms(6) s] contains_dead [OF assms(7) s]
      contains_dead [OF assms(8) s]
    by (simp add: char_conversion_def)
  show ?thesis
    unfolding read_other_checks_def read_checks_before_conversion_def c
    using 1 2 3 4 assms(2,3,4) by blast
qed

lemma update_other_checks_padded:
  assumes "plain_text base"
    and "starts_with False (ToUpperInvariant base) ''UPDATE''"
    and "contains False (ToUpperInvariant base) '' WHERE ''"
    and "keyword_hit DotNet (filter (\<lambda>k. k \<noteq> ''UPDATE'' \<and> k \<noteq> ''SET'') DangerousKeywords)
           (ToUpperInvariant base) = None"
    and "length (filter (\<lambda>stmt. \<not> IsNullOrWhiteSpace stmt) (Split (CHR '';'') base)) \<le> 1"
  shows "update_other_checks (base @ replicate n (CHR '' ''))"
proof -
  let ?p = "base @ replicate n (CHR '' '')"
  have c: "clean_dotnet ?p = base"
    using assms(1) by (rule clean_dotnet_padded)
  have 1: "\<not> IsNullOrWhiteSpace ?p"
    using assms(1) by (rule not_blank_padded)
  have 2: "\<not> IsNullOrWhiteSpace base"
    using not_blank_padded [OF assms(1), of "[]"] by simp
  show ?thesis
    unfolding update_other_checks_def c
    using 1 2 assms(2,3,4,5) by blast
qed

lemma dba_other_checks_padded:
  assumes "plain_text base"
    and "keyword_hit JS DBA_DANGEROUS_KEYWORDS (toUpperCase base) = None"
    and "list_all (\<lambda>(ic, r). rx_dead JS ic (CHR '' '' # base) r) DBA_DANGEROUS_PATTERNS"
    and "IsMatch JS True hasValidOperation (toUpperCase base)"
  shows "dba_other_checks (base @ replicate n (CHR '' ''))"
proof -
  let ?p = "base @ replicate n (CHR '' '')"
  have c: "clean_js ?p = base"
    using assms(1) by (rule clean_js_padded)
  have s: "set ?p \<subseteq> set (CHR '' '' # base)"
    by (rule set_padded)
  have 0: "base \<noteq> []"
    using assms(1) by (rule plain_text_parts(1))
  then have 1: "?p \<noteq> []" by simp
  have 3: "\<not> pattern_hit JS DBA_DANGEROUS_PATTERNS ?p"
    using assms(3) s by (rule pattern_dead)
  show ?thesis
    unfolding dba_other_checks_def c
    using 0 1 3 assms(2,4) by blast
qed

lemma ddl_other_checks_padded:
  assumes "plain_text base"
    and "ddl_checks_before_patterns this base"
    and "list_all (\<lambda>(ic, r). rx_dead JS ic (CHR '' '' # base) r) DDL_DANGEROUS_PATTERNS"
    and "let statements = filter (\<lambda>stmt. length (Trim JS stmt) > 0) (Split (CHR '';'') base)
         in length statements > 1 \<longrightarrow> all_statements_DDL this statements = Inr True"
    and "rx_dead JS False (CHR '' '' # base) (RStr ''CHAR('')"
    and "rx_dead JS False (CHR '' '' # base) (RStr ''NCHAR('')"
    and "rx_dead JS False (CHR '' '' # base) (RStr ''ASCII('')"
    and "rx_dead JS True (CHR '' '' # base) systemDbPattern"
  shows "ddl_other_checks this (base @ replicate n (CHR '' ''))"
proof -
  let ?p = "base @ replicate n (CHR '' '')"
  have c: "clean_js ?p = base"
    using assms(1) by (rule clean_js_padded)
  have c0: "clean_js base = base"
    using clean_js_padded [OF assms(1), of 0] by simp
  have s: "set ?p \<subseteq> set (CHR '' '' # base)"
    by (rule set_padded)
  have "base \<noteq> []"
    using assms(1) by (rule plain_text_parts(1))
  then have 1: "?p \<noteq> []" by simp
  have 2: "ddl_checks_before_patterns this ?p"
    using assms(2) 1 unfolding ddl_checks_before_patterns_def c c0 by blast
  have 3: "\<not> pattern_hit JS DDL_DANGEROUS_PATTERNS ?p"
    using assms(3) s by (rule pattern_dead)
  have 4: "\<not> (contains False ?p ''CHAR('' \<or> contains False ?p ''NCHAR(''
             \<or> contains False ?p ''ASCII('')"
    using contains_dead [OF assms(5) s] contains_dead [OF assms(6) s]
      contains_dead [OF assms(7) s]
    by simp
  have 5: "\<not> IsMatch JS True systemDbPattern ?p"
    using assms(8) s by (rule rx_dead_IsMatch)
  show ?thesis
    unfolding ddl_other_checks_def c
    using 2 3 4 5 assms(4) by blast
qed

section \<open>Keywords as tokens\<close>


























section \<open>Single spaces in the normalized text\<close>

lemma spaced_weaken: "spaced True s \<Longrightarrow> spaced False s"
  by (cases s) (auto split: if_splits)

lemma spaced_suffix: "spaced b (u @ v) \<Longrightarrow> spaced False v"
proof (induction u arbitrary: b)
  case Nil
  then show ?case using spaced_weaken by (cases b) auto
next
  case (Cons c u)
  then show ?case by (auto split: if_splits)
qed

lemma spaced_prefix: "spaced b (u @ v) \<Longrightarrow> spaced b u"
  by (induction u arbitrary: b) (auto split: if_splits)

lemma spaced_after_space:
  "spaced False s \<Longrightarrow> s = [] \<or> \<not> is_space JS (hd s) \<Longrightarrow> spaced True s"
  by (cases s) auto

lemma replace_ws_runs_hd:
  "s \<noteq> [] \<Longrightarrow> \<not> is_space JS (hd s) \<Longrightarrow> hd (replace_ws_runs s) = hd s \<and> replace_ws_runs s \<noteq> []"
  by (cases s) auto

lemma spaced_replace_ws_runs: "spaced False (replace_ws_runs s)"
proof (induction s rule: replace_ws_runs.induct)
  case 1
  then show ?case by simp
next
  case (2 c cs)
  show ?case
  proof (cases "is_space JS c")
    case True
    let ?d = "dropWhile (is_space JS) cs"
    have ih: "spaced False (replace_ws_runs ?d)"
      using "2.IH"(1) True by simp
    have "replace_ws_runs ?d = [] \<or> \<not> is_space JS (hd (replace_ws_runs ?d))"
    proof (cases "?d = []")
      case True
      have "replace_ws_runs ?d = []"
        by (simp only: True replace_ws_runs.simps)
      then show ?thesis by blast
    next
      case False
      then have "\<not> is_space JS (hd ?d)" by (rule hd_dropWhile)
      then show ?thesis using False replace_ws_runs_hd [of ?d] by simp
    qed
    then have "spaced True (replace_ws_runs ?d)"
      using ih spaced_after_space by blast
    then show ?thesis using True by (simp add: space_is_space)
  next
    case False
    then show ?thesis using "2.IH"(2) by simp
  qed
qed

lemma spaced_Trim:
  assumes "spaced False s"
  shows "spaced False (Trim JS s)"
proof -
  let ?d = "dropWhile (is_space JS) s"
  let ?e = "dropWhile (is_space JS) (rev ?d)"
  have "s = takeWhile (is_space JS) s @ ?d" by simp
  then have "spaced False (takeWhile (is_space JS) s @ ?d)"
    using assms by simp
  then have d: "spaced False ?d" by (rule spaced_suffix)
  have "?d = rev (rev ?d)" by simp
  also have "\<dots> = rev (takeWhile (is_space JS) (rev ?d) @ ?e)"
    by (simp only: takeWhile_dropWhile_id)
  also have "\<dots> = rev ?e @ rev (takeWhile (is_space JS) (rev ?d))"
    by (simp only: rev_append)
  finally have "?d = rev ?e @ rev (takeWhile (is_space JS) (rev ?d))" .
  then have "spaced False (rev ?e @ rev (takeWhile (is_space JS) (rev ?d)))"
    using d by simp
  then have "spaced False (rev ?e)" by (rule spaced_prefix)
  then show ?thesis by (simp add: Trim_def)
qed

lemma capital_not_space: "\<not> is_space JS c \<Longrightarrow> \<not> is_space JS (capital c)"
  using code_less_256 [of c]
  by (auto simp: is_space.simps capital_def has_capital_def is_ascii_lower_def code_char_of)

lemma space_upper: "\<not> is_sharp_s (CHR '' '')" "capital (CHR '' '') = CHR '' ''"
  by (simp_all add: char_eval)

lemma spaced_toUpperCase: "spaced b s \<Longrightarrow> spaced b (toUpperCase s)"
proof (induction s arbitrary: b)
  case Nil
  then show ?case by (simp add: toUpperCase_def)
next
  case (Cons c cs)
  have u: "toUpperCase (c # cs) = (if is_sharp_s c then ''SS'' else [capital c]) @ toUpperCase cs"
    by (simp add: toUpperCase_def)
  show ?case
  proof (cases "is_space JS c")
    case True
    then have c: "c = CHR '' ''" "\<not> b" "spaced True cs"
      using Cons.prems by simp_all
    then have "spaced True (toUpperCase cs)" using Cons.IH by blast
    then show ?thesis using c u by (simp add: space_upper space_is_space)
  next
    case False
    then have "spaced False cs" using Cons.prems by simp
    then have ih: "spaced False (toUpperCase cs)" using Cons.IH by blast
    have "\<not> is_space JS (CHR ''S'')" by (simp add: char_eval)
    then show ?thesis
      using ih u False capital_not_space [of c] by simp
  qed
qed

lemma spaced_clean_js: "spaced False (toUpperCase (clean_js query))"
  unfolding clean_js_def
  by (intro spaced_toUpperCase spaced_Trim spaced_replace_ws_runs)

lemma starts_with_append:
  "starts_with ic s w1 \<Longrightarrow> starts_with ic (drop (length w1) s) w2 \<Longrightarrow>
   starts_with ic s (w1 @ w2)"
  by (induction ic s w1 rule: starts_with.induct) auto

lemma rx_step_seq_elim:
  assumes "rx_step fl ic (RSeq a b) st \<noteq> []"
  obtains st1 where "st1 \<in> set (rx_step fl ic a st)" "rx_step fl ic b st1 \<noteq> []"
  using assms by auto

lemma IsMatch_RAlt: "IsMatch fl ic (RAlt a b) s \<longleftrightarrow> IsMatch fl ic a s \<or> IsMatch fl ic b s"
  unfolding IsMatch_def rx_search_iff by auto

lemma spaced_run:
  assumes "spaced b (c # m @ v)" "is_space JS c" "list_all (is_space JS) m"
  shows "c = CHR '' '' \<and> m = []"
proof -
  have c: "c = CHR '' ''" and t: "spaced True (m @ v)"
    using assms(1,2) by simp_all
  have "m = []"
  proof (cases m)
    case Nil
    then show ?thesis .
  next
    case (Cons d ds)
    then have "is_space JS d" using assms(3) by simp
    then show ?thesis using t Cons by simp
  qed
  then show ?thesis using c by simp
qed

lemma plus_space_match:
  assumes "spaced False text"
    and "IsMatch JS True (seqs [RStr w1, RPlus CSpace, RStr w2]) text"
  shows "contains True text (w1 @ '' '' @ w2)"
proof -
  obtain u v where uv: "text = u @ v"
    "rx_step JS True (RSeq (RStr w1) (RSeq (RPlus CSpace) (RStr w2))) (pos_after None u, v) \<noteq> []"
    using assms(2) by (auto simp: IsMatch_def rx_search_iff)
  obtain st1 where 1: "st1 \<in> set (rx_step JS True (RStr w1) (pos_after None u, v))"
    "rx_step JS True (RSeq (RPlus CSpace) (RStr w2)) st1 \<noteq> []"
    using uv(2) by (rule rx_step_seq_elim)
  obtain st2 where 2: "st2 \<in> set (rx_step JS True (RPlus CSpace) st1)"
    "rx_step JS True (RStr w2) st2 \<noteq> []"
    using 1(2) by (rule rx_step_seq_elim)
  obtain p2 v2 where st2: "st2 = (p2, v2)" by (cases st2)
  let ?v1 = "drop (length w1) v"
  have w1: "starts_with True v w1" and st1: "st1 = (pos_after (pos_after None u) (take (length w1) v), ?v1)"
    using 1(1) by (auto simp: str_step_eq split: if_splits)
  have w2: "starts_with True v2 w2"
    using 2(2) st2 by (auto simp: str_step_eq split: if_splits)
  obtain c cs where v1: "?v1 = c # cs" "is_space JS c"
    "(p2, v2) \<in> set (star_step JS CSpace (Some c, cs))"
    using 2(1) st1 st2 by (cases ?v1) (auto split: if_splits)
  obtain m where m: "cs = m @ v2" "list_all (in_class JS CSpace) m"
    using v1(3) star_step_suffix by blast
  have "text = (u @ take (length w1) v) @ (c # m @ v2)"
    using uv(1) v1(1) m(1) by (metis append.assoc append_take_drop_id)
  then have sp: "spaced False (c # m @ v2)"
    using assms(1) spaced_suffix by metis
  have "in_class JS CSpace = is_space JS"
    by (rule ext) simp
  then have ms: "list_all (is_space JS) m"
    using m(2) by simp
  have "c = CHR '' '' \<and> m = []"
    using sp v1(2) ms by (rule spaced_run)
  then have "?v1 = CHR '' '' # v2"
    using v1(1) m(1) by simp
  then have r: "starts_with True ?v1 ('' '' @ w2)"
    using w2 by (simp add: char_eq_def)
  have "starts_with True v (w1 @ '' '' @ w2)"
    using w1 r by (rule starts_with_append)
  then show ?thesis
    using uv(1) contains_iff by blast
qed

lemma dba_isValid: "isValid (validateDBAQuery query) \<longleftrightarrow> validateDBAQuery query = valid"
  by (auto simp: validateDBAQuery_def Let_def valid_def invalid_def split: option.splits)

section \<open>The receiver of validateDDL\<close>

text \<open>
  Every validator is a total function here: each of its loops ends (the termination
  proofs of \<open>while_double_spaces\<close>, \<open>replace_ws_runs\<close> and the two comment
  strippers), and no regular expression is given a time limit that could run out. A text
  that is empty after normalization is never accepted.
\<close>

lemma read_empty_rejected:
  "IsNullOrWhiteSpace (clean_dotnet sql) \<Longrightarrow> \<not> IsValid (ValidateReadQuery sql)"
  by (simp add: read_valid_iff read_other_checks_def read_checks_before_conversion_def)

lemma update_empty_rejected:
  "IsNullOrWhiteSpace (clean_dotnet sql) \<Longrightarrow> \<not> IsValid (ValidateUpdateQuery sql)"
  by (simp add: update_valid_iff update_other_checks_def)

lemma dba_empty_rejected:
  "clean_js query = [] \<Longrightarrow> \<not> isValid (validateDBAQuery query)"
  by (simp add: dba_isValid dba_valid_iff dba_other_checks_def)

lemma ddl_empty_rejected:
  "clean_js ddl = [] \<Longrightarrow> \<exists>msg. validateDDL this ddl = Inr (invalid msg)"
  by (auto simp: validateDDL_def)

text \<open>
  The data-definition validator on an object made by \<open>new ExecuteDDLTool()\<close>: the two
  checks on emptiness answer, and every other text ends in the \<open>TypeError\<close> of the first
  use of \<open>this.ALLOWED_DDL_KEYWORDS\<close>.
\<close>

lemma validateDDL_instance:
  "validateDDL new_ExecuteDDLTool ddl =
     (if ddl = [] then Inr (invalid ''DDL statement must be a non-empty string'')
      else if clean_js ddl = []
      then Inr (invalid ''DDL statement cannot be empty after removing comments'')
      else Inl TypeError)"
  by (simp add: validateDDL_def new_ExecuteDDLTool_def this_some_def Let_def)

text \<open>
  Claim C7: for every text, \<open>validate\<close> never throws and always returns a result. The
  data-definition validator does throw: called on an object made by
  \<open>new ExecuteDDLTool()\<close>, as \<open>run\<close> calls it, \<open>this.ALLOWED_DDL_KEYWORDS\<close> is
  undefined, and the call of \<open>some\<close> on it raises a \<open>TypeError\<close> for every text that is
  not empty after normalization.
\<close>

theorem C7_validateDDL_throws:
  "validateDDL new_ExecuteDDLTool ''CREATE TABLE t (id INT)'' = Inl TypeError"
proof -
  have "clean_js ''CREATE TABLE t (id INT)'' = ''CREATE TABLE t (id INT)''"
    by code_simp
  then show ?thesis
    by (simp add: validateDDL_def new_ExecuteDDLTool_def this_some_def)
qed

section \<open>Conversion functions in a read query\<close>

text \<open>
  Claim C9: under the read-only policy, every text whose raw form contains \<open>CHAR(\<close>,
  \<open>NCHAR(\<close> or \<open>ASCII(\<close> in any letter case is rejected, and with the reason of the
  conversion check when the checks before it pass; no concatenation operator is needed,
  and the text is the raw one, comments and literals included.
\<close>

theorem C9_conversion_functions_rejected:
  assumes "char_conversion sql"
  shows "\<not> IsValid (ValidateReadQuery sql)
    \<and> (read_checks_before_conversion sql \<longrightarrow>
         ValidateReadQuery sql =
           Result False
             ''Character conversion functions are not allowed as they may be used for obfuscation.'')"
  using assms by (simp add: read_valid_iff read_other_checks_def read_conversion)

theorem C9_conversion_functions_rejected_witness:
  "char_conversion ''SELECT CHAR(65)''
   \<and> read_checks_before_conversion ''SELECT CHAR(65)''
   \<and> \<not> contains False ''SELECT CHAR(65)'' ''+''
   \<and> \<not> IsValid (ValidateReadQuery ''SELECT CHAR(65)'')
   \<and> ValidateReadQuery ''SELECT CHAR(65)'' =
         Result False
           ''Character conversion functions are not allowed as they may be used for obfuscation.''"
proof -
  have 1: "char_conversion ''SELECT CHAR(65)''" by code_simp
  have 2: "read_checks_before_conversion ''SELECT CHAR(65)''" by code_simp
  have 3: "\<not> contains False ''SELECT CHAR(65)'' ''+''" by code_simp
  note t = C9_conversion_functions_rejected [OF 1]
  show ?thesis
    using t 1 2 3 by blast
qed

section \<open>Procedure prefixes in a data-definition statement\<close>

text \<open>
  The patterns \<open>/sp_/i\<close> and \<open>/xp_/i\<close> have no word boundary and are tried on the
  raw text: on a receiver that lets the checks before the loop over the patterns pass,
  every text that contains one of the two prefixes, in any letter case, is rejected as a
  malicious pattern.
\<close>

lemma ddl_procedure_prefix:
  assumes "contains True ddl ''sp_'' \<or> contains True ddl ''xp_''"
    and "ddl_checks_before_patterns this ddl"
  shows "validateDDL this ddl =
           Inr (invalid ''Potentially malicious SQL pattern detected in DDL statement.'')"
proof -
  have "IsMatch JS True (RStr ''sp_'') ddl \<or> IsMatch JS True (RStr ''xp_'') ddl"
    using assms(1) by (simp add: IsMatch_RStr)
  then have "pattern_hit JS DDL_DANGEROUS_PATTERNS ddl"
    by (auto simp: pattern_hit_def DDL_DANGEROUS_PATTERNS_def)
  then show ?thesis
    using assms(2) by (rule ddl_pattern [rotated])
qed

text \<open>
  Claim C10: under the data-definition policy, every text whose raw form contains
  \<open>sp_\<close> or \<open>xp_\<close> anywhere is rejected as a malicious pattern when the checks before
  the loop over the patterns pass; the identifier \<open>grasp_data\<close> is enough. The validator
  is called on an object made by \<open>new ExecuteDDLTool()\<close>, and there the first of those
  checks throws: the statement that creates \<open>grasp_data\<close> contains \<open>sp_\<close> and ends in
  a \<open>TypeError\<close>, and no text at all gets the verdict of the malicious pattern.
\<close>

theorem C10_procedure_prefix_throws:
  "contains True ''CREATE TABLE grasp_data (id INT)'' ''sp_''
   \<and> validateDDL new_ExecuteDDLTool ''CREATE TABLE grasp_data (id INT)'' = Inl TypeError
   \<and> validateDDL new_ExecuteDDLTool ddl
       \<noteq> Inr (invalid ''Potentially malicious SQL pattern detected in DDL statement.'')"
proof -
  have 1: "contains True ''CREATE TABLE grasp_data (id INT)'' ''sp_''" by code_simp
  have c: "clean_js ''CREATE TABLE grasp_data (id INT)'' \<noteq> []" by code_simp
  have 2: "validateDDL new_ExecuteDDLTool ''CREATE TABLE grasp_data (id INT)'' = Inl TypeError"
    using c by (simp add: validateDDL_instance)
  have 3: "validateDDL new_ExecuteDDLTool ddl
       \<noteq> Inr (invalid ''Potentially malicious SQL pattern detected in DDL statement.'')"
    by (simp add: validateDDL_instance invalid_def)
  show ?thesis
    using 1 2 3 by blast
qed

section \<open>Which paths run the pattern scanner\<close>




section \<open>The guard clause of an update\<close>

text \<open>
  Claim C3 says that any occurrence of \<open>WHERE\<close>, also one inside a comment, satisfies
  the guard-clause check. Comments are removed before the check: an update whose only
  \<open>WHERE\<close> is in a line comment is rejected for the missing guard clause.
\<close>

theorem C3_where_in_comment_counterexample:
  "contains True ''UPDATE t SET a = 1 -- WHERE b = 2'' ''WHERE''
   \<and> ValidateUpdateQuery ''UPDATE t SET a = 1 -- WHERE b = 2'' =
        Result False ''UPDATE queries must include a WHERE clause for security reasons''"
proof -
  let ?q = "''UPDATE t SET a = 1 -- WHERE b = 2''"
  have 0: "contains True ?q ''WHERE''" by code_simp
  have 1: "\<not> IsNullOrWhiteSpace ?q" by code_simp
  have 2: "\<not> IsNullOrWhiteSpace (clean_dotnet ?q)" by code_simp
  have 3: "starts_with False (ToUpperInvariant (clean_dotnet ?q)) ''UPDATE''" by code_simp
  have 4: "\<not> contains False (ToUpperInvariant (clean_dotnet ?q)) '' WHERE ''" by code_simp
  show ?thesis
    using update_missing_where_iff [OF 1 2 3] 0 4 by blast
qed

lemma plain_WHERE: "plain '' WHERE ''"
  by (simp add: plain_def char_eval code_Char)

text \<open>
  Claim C3, amended: for an update statement (a text that passes the checks before the
  guard-clause check), the check is the containment of \<open>WHERE\<close> between two spaces, in
  any letter case, in the normalized text, which is what the textual removal of comments
  and the collapsing of white space leave of the input: the statement is rejected for the
  missing guard clause exactly when the normalized text does not contain it. Nothing else
  is looked at: an occurrence inside a string literal or inside a comment satisfies the
  check exactly when the removal of comments leaves it in the normalized text. In the
  witness an occurrence in a string literal and one in a block comment whose closer comes
  after two hyphens stay and satisfy the check, and one in a line comment goes.
\<close>

theorem C3_guard_clause:
  assumes "\<not> IsNullOrWhiteSpace sql" "\<not> IsNullOrWhiteSpace (clean_dotnet sql)"
    and "starts_with False (ToUpperInvariant (clean_dotnet sql)) ''UPDATE''"
  shows "ValidateUpdateQuery sql =
           Result False ''UPDATE queries must include a WHERE clause for security reasons''
         \<longleftrightarrow> \<not> contains True (clean_dotnet sql) '' WHERE ''"
  using update_missing_where_iff [OF assms] contains_upper [OF plain_WHERE] by simp

theorem C3_guard_clause_witness:
  "\<not> IsNullOrWhiteSpace (''UPDATE t SET a = '' @ quoted '' WHERE '')
   \<and> \<not> IsNullOrWhiteSpace (clean_dotnet (''UPDATE t SET a = '' @ quoted '' WHERE ''))
   \<and> starts_with False (ToUpperInvariant (clean_dotnet (''UPDATE t SET a = '' @ quoted '' WHERE ''))) ''UPDATE''
   \<and> contains True (clean_dotnet (''UPDATE t SET a = '' @ quoted '' WHERE '')) '' WHERE ''
   \<and> ValidateUpdateQuery (''UPDATE t SET a = '' @ quoted '' WHERE '')
       \<noteq> Result False ''UPDATE queries must include a WHERE clause for security reasons''
   \<and> \<not> IsNullOrWhiteSpace ''UPDATE t SET a = 1 /* WHERE b = 2 -- */''
   \<and> \<not> IsNullOrWhiteSpace (clean_dotnet ''UPDATE t SET a = 1 /* WHERE b = 2 -- */'')
   \<and> starts_with False
        (ToUpperInvariant (clean_dotnet ''UPDATE t SET a = 1 /* WHERE b = 2 -- */'')) ''UPDATE''
   \<and> clean_dotnet ''UPDATE t SET a = 1 /* WHERE b = 2 -- */'' = ''UPDATE t SET a = 1 /* WHERE b = 2''
   \<and> contains True (clean_dotnet ''UPDATE t SET a = 1 /* WHERE b = 2 -- */'') '' WHERE ''
   \<and> ValidateUpdateQuery ''UPDATE t SET a = 1 /* WHERE b = 2 -- */''
       \<noteq> Result False ''UPDATE queries must include a WHERE clause for security reasons''
   \<and> IsValid (ValidateUpdateQuery ''UPDATE t SET a = 1 /* WHERE b = 2 -- */'')
   \<and> \<not> IsNullOrWhiteSpace ''UPDATE t SET a = 1 -- WHERE b = 2''
   \<and> \<not> IsNullOrWhiteSpace (clean_dotnet ''UPDATE t SET a = 1 -- WHERE b = 2'')
   \<and> starts_with False
        (ToUpperInvariant (clean_dotnet ''UPDATE t SET a = 1 -- WHERE b = 2'')) ''UPDATE''
   \<and> \<not> contains True (clean_dotnet ''UPDATE t SET a = 1 -- WHERE b = 2'') '' WHERE ''
   \<and> ValidateUpdateQuery ''UPDATE t SET a = 1 -- WHERE b = 2''
       = Result False ''UPDATE queries must include a WHERE clause for security reasons''"
proof -
  let ?q = "''UPDATE t SET a = '' @ quoted '' WHERE ''"
  let ?b = "''UPDATE t SET a = 1 /* WHERE b = 2 -- */''"
  let ?l = "''UPDATE t SET a = 1 -- WHERE b = 2''"
  have 1: "\<not> IsNullOrWhiteSpace ?q" by code_simp
  have 2: "\<not> IsNullOrWhiteSpace (clean_dotnet ?q)" by code_simp
  have 3: "starts_with False (ToUpperInvariant (clean_dotnet ?q)) ''UPDATE''" by code_simp
  have 4: "contains True (clean_dotnet ?q) '' WHERE ''" by code_simp
  have b1: "\<not> IsNullOrWhiteSpace ?b" by code_simp
  have b2: "\<not> IsNullOrWhiteSpace (clean_dotnet ?b)" by code_simp
  have b3: "starts_with False (ToUpperInvariant (clean_dotnet ?b)) ''UPDATE''" by code_simp
  have b4: "contains True (clean_dotnet ?b) '' WHERE ''" by code_simp
  have b5: "clean_dotnet ?b = ''UPDATE t SET a = 1 /* WHERE b = 2''" by code_simp
  have b6: "update_other_checks ?b" by code_simp
  have b7: "length ?b \<le> 10000" by simp
  have b8: "IsValid (ValidateUpdateQuery ?b)"
    using update_valid_iff [of ?b] b6 b7 by blast
  have l1: "\<not> IsNullOrWhiteSpace ?l" by code_simp
  have l2: "\<not> IsNullOrWhiteSpace (clean_dotnet ?l)" by code_simp
  have l3: "starts_with False (ToUpperInvariant (clean_dotnet ?l)) ''UPDATE''" by code_simp
  have l4: "\<not> contains True (clean_dotnet ?l) '' WHERE ''" by code_simp
  note t = C3_guard_clause [OF 1 2 3]
  note tb = C3_guard_clause [OF b1 b2 b3]
  note tl = C3_guard_clause [OF l1 l2 l3]
  show ?thesis
    using t tb tl 1 2 3 4 b1 b2 b3 b4 b5 b8 l1 l2 l3 l4 by blast
qed

section \<open>Batches of data-definition statements\<close>

text \<open>
  What the checks of \<open>validateDDL\<close> make of the two batches when the two lists are read
  through the class: the batch of two \<open>CREATE\<close> statements passes, and the batch with the
  trailing \<open>SELECT\<close> is stopped by the keyword scanner, which runs on the whole text
  before the statements are looked at one by one and has \<open>SELECT\<close> among its keywords.
\<close>

lemma ddl_batch_of_creates:
  "validateDDL ExecuteDDLTool_class ''CREATE TABLE t (id INT); CREATE INDEX ix ON t(id)'' = Inr valid"
proof -
  let ?q = "''CREATE TABLE t (id INT); CREATE INDEX ix ON t(id)''"
  have 1: "ddl_other_checks ExecuteDDLTool_class ?q" by code_simp
  have 2: "length ?q \<le> 50000" by simp
  show ?thesis
    using ddl_accept [OF 1 2] .
qed

lemma ddl_batch_with_select:
  "validateDDL ExecuteDDLTool_class ''CREATE TABLE t (id INT); SELECT * FROM t'' =
     Inr (invalid (''Dangerous keyword '' @ quoted ''SELECT''
            @ '' detected in DDL statement. Only safe DDL operations are allowed.''))"
proof -
  let ?q = "''CREATE TABLE t (id INT); SELECT * FROM t''"
  have 1: "?q \<noteq> []" by simp
  have 2: "clean_js ?q \<noteq> []" by code_simp
  have 3: "this_some ExecuteDDLTool_class ''ALLOWED_DDL_KEYWORDS''
             (\<lambda>keyword. starts_with False (toUpperCase (clean_js ?q)) (keyword @ '' '')) = Inr True"
    by code_simp
  have 4: "starts_with False (toUpperCase (clean_js ?q)) ''CREATE ''
             \<or> starts_with False (toUpperCase (clean_js ?q)) ''ALTER ''
           \<longrightarrow> this_some ExecuteDDLTool_class ''ALLOWED_OBJECT_TYPES''
                 (\<lambda>objType. contains False (toUpperCase (clean_js ?q)) ('' '' @ objType @ '' ''))
               = Inr True"
    by code_simp
  have 5: "keyword_hit JS DDL_DANGEROUS_KEYWORDS (toUpperCase (clean_js ?q)) = Some ''SELECT''"
    by code_simp
  show ?thesis
    using ddl_keyword [OF 1 2 3 4 5] .
qed

text \<open>
  Claim C5: under the data-definition policy the batch of two \<open>CREATE\<close> statements is
  accepted, and the batch with a trailing \<open>SELECT\<close> is rejected because that statement
  fails the leading-verb check. \<open>run\<close> calls the validator on an object made by
  \<open>new ExecuteDDLTool()\<close>, where \<open>this.ALLOWED_DDL_KEYWORDS\<close> is undefined: both
  batches end in a \<open>TypeError\<close>, the first is not accepted and the second gets no reason.
\<close>

theorem C5_ddl_batches_throw:
  "validateDDL new_ExecuteDDLTool ''CREATE TABLE t (id INT); CREATE INDEX ix ON t(id)''
     = Inl TypeError
   \<and> validateDDL new_ExecuteDDLTool ''CREATE TABLE t (id INT); SELECT * FROM t''
     = Inl TypeError"
proof -
  have 1: "clean_js ''CREATE TABLE t (id INT); CREATE INDEX ix ON t(id)'' \<noteq> []"
    by code_simp
  have 2: "clean_js ''CREATE TABLE t (id INT); SELECT * FROM t'' \<noteq> []"
    by code_simp
  show ?thesis
    using 1 2 by (simp add: validateDDL_instance)
qed

section \<open>Normalizing twice\<close>




section \<open>The length limit\<close>

text \<open>
  On a receiver that has the two lists, the data-definition validator accepts a text that
  passes its other checks up to 50000 characters and rejects it for its length from 50001
  on.
\<close>

lemma ddl_length_boundary:
  "ddl_other_checks this ddl \<Longrightarrow>
     (length ddl = 50000 \<longrightarrow> validateDDL this ddl = Inr valid)
     \<and> (length ddl = 50001 \<longrightarrow>
         validateDDL this ddl =
           Inr (invalid ''DDL statement is too long. Maximum allowed length is 50,000 characters.''))"
  by (simp add: ddl_accept ddl_too_long)

text \<open>
  Claim C8: for every text that passes all the other checks of its policy, a text whose
  original length is exactly the limit is accepted, and one that is one character longer
  is rejected for its length. The read, the update and the diagnostic validator have this
  boundary, at 10000, 10000 and 50000 characters. The data-definition validator is called
  on an object made by \<open>new ExecuteDDLTool()\<close>, and there it throws on every text
  that passes the other checks of its policy (taken with the two lists as the class
  declares them), whatever the length: a text of exactly 50000 characters is not accepted.
  The witness pads a passing text with spaces up to the two lengths.
\<close>

theorem C8_length_boundary:
  "(read_other_checks sql \<longrightarrow>
      (length sql = 10000 \<longrightarrow>
         ValidateReadQuery sql = Result True ''Query validation passed'')
      \<and> (length sql = 10001 \<longrightarrow>
         ValidateReadQuery sql =
           Result False ''Query is too long. Maximum allowed length is 10,000 characters.''))
   \<and> (update_other_checks upd \<longrightarrow>
      (length upd = 10000 \<longrightarrow>
         ValidateUpdateQuery upd = Result True ''Query validation passed'')
      \<and> (length upd = 10001 \<longrightarrow>
         ValidateUpdateQuery upd =
           Result False ''Query is too long. Maximum allowed length is 10,000 characters.''))
   \<and> (dba_other_checks query \<longrightarrow>
      (length query = 50000 \<longrightarrow> validateDBAQuery query = valid)
      \<and> (length query = 50001 \<longrightarrow>
         validateDBAQuery query =
           invalid ''Query batch is too long. Maximum allowed length is 50,000 characters.''))
   \<and> (ddl_other_checks ExecuteDDLTool_class ddl \<longrightarrow>
      validateDDL new_ExecuteDDLTool ddl = Inl TypeError)"
proof -
  have r: "read_other_checks sql \<longrightarrow>
      (length sql = 10000 \<longrightarrow>
         ValidateReadQuery sql = Result True ''Query validation passed'')
      \<and> (length sql = 10001 \<longrightarrow>
         ValidateReadQuery sql =
           Result False ''Query is too long. Maximum allowed length is 10,000 characters.'')"
    by (simp add: read_accept read_too_long)
  have u: "update_other_checks upd \<longrightarrow>
      (length upd = 10000 \<longrightarrow>
         ValidateUpdateQuery upd = Result True ''Query validation passed'')
      \<and> (length upd = 10001 \<longrightarrow>
         ValidateUpdateQuery upd =
           Result False ''Query is too long. Maximum allowed length is 10,000 characters.'')"
    by (simp add: update_accept update_too_long)
  have q: "dba_other_checks query \<longrightarrow>
      (length query = 50000 \<longrightarrow> validateDBAQuery query = valid)
      \<and> (length query = 50001 \<longrightarrow>
         validateDBAQuery query =
           invalid ''Query batch is too long. Maximum allowed length is 50,000 characters.'')"
    by (simp add: dba_accept dba_too_long)
  have d: "ddl_other_checks ExecuteDDLTool_class ddl \<longrightarrow>
      validateDDL new_ExecuteDDLTool ddl = Inl TypeError"
    by (simp add: validateDDL_instance ddl_other_checks_def ddl_checks_before_patterns_def)
  show ?thesis
    using r u q d by (intro conjI)
qed

theorem C8_length_boundary_witness:
  "read_other_checks (''SELECT 1'' @ replicate 9992 (CHR '' ''))
   \<and> length (''SELECT 1'' @ replicate 9992 (CHR '' '')) = 10000
   \<and> ValidateReadQuery (''SELECT 1'' @ replicate 9992 (CHR '' '')) =
       Result True ''Query validation passed''
   \<and> read_other_checks (''SELECT 1'' @ replicate 9993 (CHR '' ''))
   \<and> length (''SELECT 1'' @ replicate 9993 (CHR '' '')) = 10001
   \<and> ValidateReadQuery (''SELECT 1'' @ replicate 9993 (CHR '' '')) =
       Result False ''Query is too long. Maximum allowed length is 10,000 characters.''
   \<and> update_other_checks (''UPDATE t SET a = 1 WHERE b = 2'' @ replicate 9970 (CHR '' ''))
   \<and> length (''UPDATE t SET a = 1 WHERE b = 2'' @ replicate 9970 (CHR '' '')) = 10000
   \<and> ValidateUpdateQuery (''UPDATE t SET a = 1 WHERE b = 2'' @ replicate 9970 (CHR '' '')) =
       Result True ''Query validation passed''
   \<and> update_other_checks (''UPDATE t SET a = 1 WHERE b = 2'' @ replicate 9971 (CHR '' ''))
   \<and> length (''UPDATE t SET a = 1 WHERE b = 2'' @ replicate 9971 (CHR '' '')) = 10001
   \<and> ValidateUpdateQuery (''UPDATE t SET a = 1 WHERE b = 2'' @ replicate 9971 (CHR '' '')) =
       Result False ''Query is too long. Maximum allowed length is 10,000 characters.''
   \<and> dba_other_checks (''SELECT 1'' @ replicate 49992 (CHR '' ''))
   \<and> length (''SELECT 1'' @ replicate 49992 (CHR '' '')) = 50000
   \<and> validateDBAQuery (''SELECT 1'' @ replicate 49992 (CHR '' '')) = valid
   \<and> dba_other_checks (''SELECT 1'' @ replicate 49993 (CHR '' ''))
   \<and> length (''SELECT 1'' @ replicate 49993 (CHR '' '')) = 50001
   \<and> validateDBAQuery (''SELECT 1'' @ replicate 49993 (CHR '' '')) =
       invalid ''Query batch is too long. Maximum allowed length is 50,000 characters.''
   \<and> ddl_other_checks ExecuteDDLTool_class
       (''CREATE TABLE t (a INT); CREATE TABLE u (b INT)'' @ replicate 49954 (CHR '' ''))
   \<and> length (''CREATE TABLE t (a INT); CREATE TABLE u (b INT)'' @ replicate 49954 (CHR '' ''))
       = 50000
   \<and> validateDDL new_ExecuteDDLTool
       (''CREATE TABLE t (a INT); CREATE TABLE u (b INT)'' @ replicate 49954 (CHR '' ''))
       = Inl TypeError"
proof -
  let ?r = "''SELECT 1''"
  let ?u = "''UPDATE t SET a = 1 WHERE b = 2''"
  let ?d = "''CREATE TABLE t (a INT); CREATE TABLE u (b INT)''"
  have pr: "plain_text ?r" by code_simp
  have pu: "plain_text ?u" by code_simp
  have pd: "plain_text ?d" by code_simp
  have r: "read_other_checks (?r @ replicate n (CHR '' ''))" for n
  proof (rule read_other_checks_padded [OF pr])
    show "starts_with False (ToUpperInvariant ?r) ''SELECT''" by code_simp
    show "keyword_hit DotNet DangerousKeywords (ToUpperInvariant ?r) = None" by code_simp
    show "length (filter (\<lambda>stmt. \<not> IsNullOrWhiteSpace stmt) (Split (CHR '';'') ?r)) \<le> 1"
      by code_simp
    show "list_all (\<lambda>(ic, r). rx_dead DotNet ic (CHR '' '' # ?r) r) DangerousPatterns"
      by code_simp
    show "rx_dead DotNet True (CHR '' '' # ?r) (RStr ''CHAR('')" by code_simp
    show "rx_dead DotNet True (CHR '' '' # ?r) (RStr ''NCHAR('')" by code_simp
    show "rx_dead DotNet True (CHR '' '' # ?r) (RStr ''ASCII('')" by code_simp
  qed
  have u: "update_other_checks (?u @ replicate n (CHR '' ''))" for n
  proof (rule update_other_checks_padded [OF pu])
    show "starts_with False (ToUpperInvariant ?u) ''UPDATE''" by code_simp
    show "contains False (ToUpperInvariant ?u) '' WHERE ''" by code_simp
    show "keyword_hit DotNet (filter (\<lambda>k. k \<noteq> ''UPDATE'' \<and> k \<noteq> ''SET'') DangerousKeywords)
            (ToUpperInvariant ?u) = None"
      by code_simp
    show "length (filter (\<lambda>stmt. \<not> IsNullOrWhiteSpace stmt) (Split (CHR '';'') ?u)) \<le> 1"
      by code_simp
  qed
  have q: "dba_other_checks (?r @ replicate n (CHR '' ''))" for n
  proof (rule dba_other_checks_padded [OF pr])
    show "keyword_hit JS DBA_DANGEROUS_KEYWORDS (toUpperCase ?r) = None" by code_simp
    show "list_all (\<lambda>(ic, r). rx_dead JS ic (CHR '' '' # ?r) r) DBA_DANGEROUS_PATTERNS"
      by code_simp
    show "IsMatch JS True hasValidOperation (toUpperCase ?r)" by code_simp
  qed
  have d: "ddl_other_checks ExecuteDDLTool_class (?d @ replicate n (CHR '' ''))" for n
  proof (rule ddl_other_checks_padded [OF pd])
    show "ddl_checks_before_patterns ExecuteDDLTool_class ?d" by code_simp
    show "list_all (\<lambda>(ic, r). rx_dead JS ic (CHR '' '' # ?d) r) DDL_DANGEROUS_PATTERNS"
      by code_simp
    show "let statements = filter (\<lambda>stmt. length (Trim JS stmt) > 0) (Split (CHR '';'') ?d)
          in length statements > 1 \<longrightarrow>
             all_statements_DDL ExecuteDDLTool_class statements = Inr True"
      by code_simp
    show "rx_dead JS False (CHR '' '' # ?d) (RStr ''CHAR('')" by code_simp
    show "rx_dead JS False (CHR '' '' # ?d) (RStr ''NCHAR('')" by code_simp
    show "rx_dead JS False (CHR '' '' # ?d) (RStr ''ASCII('')" by code_simp
    show "rx_dead JS True (CHR '' '' # ?d) systemDbPattern" by code_simp
  qed
  have lr0: "length (?r @ replicate 9992 (CHR '' '')) = 10000" by simp
  have lr1: "length (?r @ replicate 9993 (CHR '' '')) = 10001" by simp
  have lu0: "length (?u @ replicate 9970 (CHR '' '')) = 10000" by simp
  have lu1: "length (?u @ replicate 9971 (CHR '' '')) = 10001" by simp
  have ld0: "length (?d @ replicate 49954 (CHR '' '')) = 50000" by simp
  have lq0: "length (?r @ replicate 49992 (CHR '' '')) = 50000" by simp
  have lq1: "length (?r @ replicate 49993 (CHR '' '')) = 50001" by simp
  note r0 = r [of 9992] and r1 = r [of 9993]
  note u0 = u [of 9970] and u1 = u [of 9971]
  note q0 = q [of 49992] and q1 = q [of 49993]
  note d0 = d [of 49954]
  note t0 = C8_length_boundary [of "?r @ replicate 9992 (CHR '' '')"
      "?u @ replicate 9970 (CHR '' '')" "?r @ replicate 49992 (CHR '' '')"
      "?d @ replicate 49954 (CHR '' '')"]
  note t1 = C8_length_boundary [of "?r @ replicate 9993 (CHR '' '')"
      "?u @ replicate 9971 (CHR '' '')" "?r @ replicate 49993 (CHR '' '')"
      "?d @ replicate 49954 (CHR '' '')"]
  note R0 = t0 [THEN conjunct1, THEN mp, OF r0, THEN conjunct1, THEN mp, OF lr0]
  note R1 = t1 [THEN conjunct1, THEN mp, OF r1, THEN conjunct2, THEN mp, OF lr1]
  note U0 = t0 [THEN conjunct2, THEN conjunct1, THEN mp, OF u0, THEN conjunct1, THEN mp, OF lu0]
  note U1 = t1 [THEN conjunct2, THEN conjunct1, THEN mp, OF u1, THEN conjunct2, THEN mp, OF lu1]
  note Q0 = t0 [THEN conjunct2, THEN conjunct2, THEN conjunct1, THEN mp, OF q0,
      THEN conjunct1, THEN mp, OF lq0]
  note Q1 = t1 [THEN conjunct2, THEN conjunct2, THEN conjunct1, THEN mp, OF q1,
      THEN conjunct2, THEN mp, OF lq1]
  note D0 = t0 [THEN conjunct2, THEN conjunct2, THEN conjunct2, THEN mp, OF d0]
  show ?thesis
    using r0 lr0 R0 r1 lr1 R1 u0 lu0 U0 u1 lu1 U1 q0 lq0 Q0 q1 lq1 Q1 d0 ld0 D0
    by (intro conjI)
qed

section \<open>Denylisted keywords as standalone tokens\<close>




section \<open>Batches of diagnostic statements\<close>

text \<open>
  Claim C2 says that a diagnostic batch is accepted only if every candidate statement is
  a \<open>SELECT\<close> or a whitelisted toggle. \<open>validateDBAQuery\<close> asks for one such
  operation somewhere in the batch, as its comment says, and accepts a batch whose second
  statement is neither.
\<close>

theorem C2_other_statement_accepted_counterexample:
  "validateDBAQuery ''SELECT 1; CHECKPOINT'' = valid
   \<and> \<not> every_candidate_diagnostic ''SELECT 1; CHECKPOINT''"
proof -
  let ?q = "''SELECT 1; CHECKPOINT''"
  have 1: "dba_other_checks ?q" by code_simp
  have 2: "length ?q \<le> 50000" by simp
  have 3: "\<not> every_candidate_diagnostic ?q" by code_simp
  show ?thesis
    using dba_accept [OF 1 2] 3 by blast
qed

text \<open>
  Claim C2, amended: a diagnostic batch is accepted only if its normalized text, in
  capitals, contains somewhere one of \<open>SELECT\<close>, \<open>SET STATISTICS\<close>, \<open>SET SHOWPLAN\<close>
  and \<open>DBCC SHOW_STATISTICS\<close>; a batch that contains none of them is rejected. The
  candidate statements are not looked at one by one.
\<close>

theorem C2_some_diagnostic_marker:
  assumes "isValid (validateDBAQuery query)"
  shows "contains True (toUpperCase (clean_js query)) ''SELECT''
    \<or> contains True (toUpperCase (clean_js query)) ''SET STATISTICS''
    \<or> contains True (toUpperCase (clean_js query)) ''SET SHOWPLAN''
    \<or> contains True (toUpperCase (clean_js query)) ''DBCC SHOW_STATISTICS''"
proof -
  let ?u = "toUpperCase (clean_js query)"
  have "IsMatch JS True hasValidOperation ?u"
    using assms by (simp add: dba_isValid dba_valid_iff dba_other_checks_def)
  then consider "IsMatch JS True (RStr ''SELECT'') ?u"
    | "IsMatch JS True (seqs [RStr ''SET'', RPlus CSpace, RStr ''STATISTICS'']) ?u"
    | "IsMatch JS True (seqs [RStr ''SET'', RPlus CSpace, RStr ''SHOWPLAN'']) ?u"
    | "IsMatch JS True (seqs [RStr ''DBCC'', RPlus CSpace, RStr ''SHOW_STATISTICS'']) ?u"
    unfolding hasValidOperation_def IsMatch_RAlt by blast
  then show ?thesis
  proof cases
    case 1
    then show ?thesis by (simp add: IsMatch_RStr)
  next
    case 2
    then show ?thesis using plus_space_match [OF spaced_clean_js] by fastforce
  next
    case 3
    then show ?thesis using plus_space_match [OF spaced_clean_js] by fastforce
  next
    case 4
    then show ?thesis using plus_space_match [OF spaced_clean_js] by fastforce
  qed
qed

theorem C2_some_diagnostic_marker_witness:
  "isValid (validateDBAQuery ''set  statistics io on; checkpoint'')
   \<and> \<not> every_candidate_diagnostic ''set  statistics io on; checkpoint''
   \<and> contains True (toUpperCase (clean_js ''set  statistics io on; checkpoint'')) ''SET STATISTICS''"
proof -
  let ?q = "''set  statistics io on; checkpoint''"
  have 1: "dba_other_checks ?q" by code_simp
  have 2: "length ?q \<le> 50000" by simp
  have 3: "\<not> every_candidate_diagnostic ?q" by code_simp
  have 4: "\<not> contains True (toUpperCase (clean_js ?q)) ''SELECT''" by code_simp
  have 5: "\<not> contains True (toUpperCase (clean_js ?q)) ''SET SHOWPLAN''" by code_simp
  have 6: "\<not> contains True (toUpperCase (clean_js ?q)) ''DBCC SHOW_STATISTICS''" by code_simp
  have v: "isValid (validateDBAQuery ?q)"
    using dba_accept [OF 1 2] dba_isValid by blast
  note t = C2_some_diagnostic_marker [OF v]
  show ?thesis
    using t v 3 4 5 6 by blast
qed

end
